theory Spec2Isabelle
  imports
    Complex_Main
    "HOL-Library.Char_ord"
    "HOL-Library.List_Lexorder"
    "HOL-Library.Product_Lexorder"
begin

section \<open>Data model\<close>

text \<open>
  The program is a script over pandas data frames. A data frame is modelled as the list
  of its rows, in row order; a row of the CSV file is the record \<open>shipment\<close>, with
  one field per column the script reads.

  A cell of a column of strings is a \<open>string option\<close>: \<open>None\<close> is the missing
  cell (pandas' NaN). A cell of a numeric column of the file is an \<open>amount option\<close>,
  again with \<open>None\<close> for NaN; an amount is the number that the cell stands for, a
  rational. What pandas computes from whole columns of such cells (the sum of a group,
  the sum of a column) depends on the type of the column and on the summation that the
  library runs: these reductions are arguments of the model, see \<open>library\<close> below.
  Strings are ordered as Python orders them (lexicographically, by character code),
  dates as \<open>datetime.date\<close> orders them (year, then month, then day).
\<close>

type_synonym amount = rat

type_synonym date = "int \<times> nat \<times> nat"

record timestamp =
  year :: int
  month :: nat
  day :: nat
  time_of_day :: nat

record shipment =
  arrival_date :: "timestamp option"
  importer_name :: "string option"
  importer_country :: "string option"
  country_of_origin :: "string option"
  product_details :: "string option"
  import_value_cif :: "amount option"
  import_value_fob :: "amount option"
  quantity :: "amount option"
  quantity_unit :: "string option"

text \<open>\<open>Timestamp.date()\<close>, the accessor behind \<open>.dt.date\<close>: the time of day is dropped.\<close>

definition dt_date :: "timestamp \<Rightarrow> date" where
  "dt_date t = (year t, month t, day t)"

section \<open>Filter engine (lines 50 to 71)\<close>

text \<open>
  Line 50. The mask compares the date of every row with both bounds; a row whose date
  is missing (NaT) compares false on both sides and is left out. Indexing by the mask
  keeps the rows where it is true, in order.
\<close>

definition in_date_range :: "date \<Rightarrow> date \<Rightarrow> 'a shipment_scheme \<Rightarrow> bool" where
  "in_date_range start_date end_date r =
     (case arrival_date r of
        None \<Rightarrow> False
      | Some t \<Rightarrow> dt_date t \<ge> start_date \<and> dt_date t \<le> end_date)"

definition date_filter :: "date \<Rightarrow> date \<Rightarrow> 'a shipment_scheme list \<Rightarrow> 'a shipment_scheme list" where
  "date_filter start_date end_date shipping_df =
     filter (in_date_range start_date end_date) shipping_df"

text \<open>
  Lines 66 and 67. \<open>if selected_importers:\<close> is the truth value of a list: the
  filter runs only when the selection is not empty. \<open>isin\<close> is membership in the
  selection (a missing name matches a missing entry of the selection).
\<close>

definition importer_filter :: "string option list \<Rightarrow> 'a shipment_scheme list \<Rightarrow> 'a shipment_scheme list" where
  "importer_filter selected_importers df =
     (if selected_importers \<noteq> []
      then filter (\<lambda>r. importer_name r \<in> set selected_importers) df
      else df)"

text \<open>
  Lines 68 to 71. The selection is one entry of the options list: the sentinel
  \<open>''All''\<close>, or a value of the column. Comparing a column with a string is false on a
  missing cell, and comparing it with the missing value is false everywhere.
\<close>

definition eq_filter :: "('a shipment_scheme \<Rightarrow> string option) \<Rightarrow> string option
    \<Rightarrow> 'a shipment_scheme list \<Rightarrow> 'a shipment_scheme list" where
  "eq_filter col selected df =
     (if selected \<noteq> Some ''All''
      then filter (\<lambda>r. selected \<noteq> None \<and> col r = selected) df
      else df)"

record filter_spec =
  start_date :: date
  end_date :: date
  selected_importers :: "string option list"
  selected_importer_country :: "string option"
  selected_exporter_country :: "string option"

definition filtered_df :: "filter_spec \<Rightarrow> shipment list \<Rightarrow> shipment list" where
  "filtered_df spec shipping_df =
     eq_filter country_of_origin (selected_exporter_country spec)
       (eq_filter importer_country (selected_importer_country spec)
         (importer_filter (selected_importers spec)
           (date_filter (start_date spec) (end_date spec) shipping_df)))"

section \<open>Derived column (line 96)\<close>

text \<open>
  \<open>Series.fillna(v)\<close> replaces every missing cell by \<open>v\<close>; \<open>+\<close> on two columns of
  one frame adds cell by cell, and a sum with a missing operand is missing.
\<close>

definition fillna :: "amount \<Rightarrow> amount option list \<Rightarrow> amount option list" where
  "fillna v col = map (\<lambda>c. case c of None \<Rightarrow> Some v | Some x \<Rightarrow> Some x) col"

definition col_add :: "amount option list \<Rightarrow> amount option list \<Rightarrow> amount option list" where
  "col_add xs ys =
     map2 (\<lambda>x y. case x of None \<Rightarrow> None
                    | Some a \<Rightarrow> (case y of None \<Rightarrow> None | Some b \<Rightarrow> Some (a + b))) xs ys"

text \<open>A frame that has the column \<open>TOTAL VALUE\<close> beside the columns of the file.\<close>

record valued = shipment +
  total_value :: "amount option"

definition set_total_value :: "shipment \<Rightarrow> amount option \<Rightarrow> valued" where
  "set_total_value r v =
     \<lparr>arrival_date = arrival_date r, importer_name = importer_name r,
      importer_country = importer_country r, country_of_origin = country_of_origin r,
      product_details = product_details r, import_value_cif = import_value_cif r,
      import_value_fob = import_value_fob r, quantity = quantity r,
      quantity_unit = quantity_unit r, total_value = v\<rparr>"

definition total_value_column :: "shipment list \<Rightarrow> amount option list" where
  "total_value_column df =
     col_add (fillna 0 (map import_value_cif df)) (fillna 0 (map import_value_fob df))"

definition assign_total_value :: "shipment list \<Rightarrow> valued list" where
  "assign_total_value df = map2 set_total_value df (total_value_column df)"

section \<open>Values of float64 columns\<close>

text \<open>
  The columns that pandas computes (sums of groups, the previous total, the growth
  rate) hold float64 values: a number, one of the two zeros, one of the two infinities
  or NaN. \<open>Finite 0\<close> is the positive zero. An operation on whole columns raises
  nothing: it follows IEEE 754, so that a division by a zero gives an infinity or NaN
  and a result too large for the format is an infinity. The rounding of a result that
  is in range is not modelled: such a result is the exact number.
\<close>

datatype float64 = Finite rat | NegZero | PosInf | NegInf | NaN

fun is_zero :: "float64 \<Rightarrow> bool" where
  "is_zero (Finite a) = (a = 0)"
| "is_zero NegZero = True"
| "is_zero x = False"

fun is_inf :: "float64 \<Rightarrow> bool" where
  "is_inf PosInf = True"
| "is_inf NegInf = True"
| "is_inf x = False"

text \<open>The sign bit, as \<open>1\<close> or \<open>-1\<close>, and the number that a finite value stands for.\<close>

fun sign_of :: "float64 \<Rightarrow> int" where
  "sign_of (Finite a) = (if a < 0 then - 1 else 1)"
| "sign_of NegZero = - 1"
| "sign_of PosInf = 1"
| "sign_of NegInf = - 1"
| "sign_of NaN = 1"

fun number_of :: "float64 \<Rightarrow> rat" where
  "number_of (Finite a) = a"
| "number_of x = 0"

definition signed_zero :: "int \<Rightarrow> float64" where
  "signed_zero s = (if s < 0 then NegZero else Finite 0)"

definition signed_inf :: "int \<Rightarrow> float64" where
  "signed_inf s = (if s < 0 then NegInf else PosInf)"

text \<open>
  An exact result that is not 0: an infinity when its magnitude reaches the point
  halfway between the largest float64 number and \<open>2 ^ 1024\<close>, which is
  \<open>2 ^ 1024 - 2 ^ 970\<close>, and the number otherwise.
\<close>

definition overflow_threshold :: rat where
  "overflow_threshold =
     179769313486231580793728971405303415079934132710037826936173778980444968292764750946649017977587207096330286416692887910946555547851940402630657488671505820681908902000708383676273854845817711531764475730270069855571366959622842914819860834936475292719074168444365510704342711559699508093042880177904174497792"

definition in_range :: "rat \<Rightarrow> float64" where
  "in_range x =
     (if overflow_threshold \<le> \<bar>x\<bar> then signed_inf (if x < 0 then - 1 else 1) else Finite x)"

fun fneg :: "float64 \<Rightarrow> float64" where
  "fneg (Finite a) = (if a = 0 then NegZero else Finite (- a))"
| "fneg NegZero = Finite 0"
| "fneg PosInf = NegInf"
| "fneg NegInf = PosInf"
| "fneg NaN = NaN"

definition fadd :: "float64 \<Rightarrow> float64 \<Rightarrow> float64" where
  "fadd x y =
     (if x = NaN \<or> y = NaN then NaN
      else if is_inf x then (if is_inf y \<and> x \<noteq> y then NaN else x)
      else if is_inf y then y
      else if is_zero x \<and> is_zero y then (if x = NegZero \<and> y = NegZero then NegZero else Finite 0)
      else if is_zero x then y
      else if is_zero y then x
      else if number_of x + number_of y = 0 then Finite 0
      else in_range (number_of x + number_of y))"

definition fsub :: "float64 \<Rightarrow> float64 \<Rightarrow> float64" where
  "fsub x y = fadd x (fneg y)"

definition fmul :: "float64 \<Rightarrow> float64 \<Rightarrow> float64" where
  "fmul x y =
     (if x = NaN \<or> y = NaN then NaN
      else if (is_inf x \<and> is_zero y) \<or> (is_zero x \<and> is_inf y) then NaN
      else if is_inf x \<or> is_inf y then signed_inf (sign_of x * sign_of y)
      else if is_zero x \<or> is_zero y then signed_zero (sign_of x * sign_of y)
      else in_range (number_of x * number_of y))"

definition fdiv :: "float64 \<Rightarrow> float64 \<Rightarrow> float64" where
  "fdiv x y =
     (if x = NaN \<or> y = NaN then NaN
      else if is_inf x \<and> is_inf y then NaN
      else if is_zero x \<and> is_zero y then NaN
      else if is_inf x then signed_inf (sign_of x * sign_of y)
      else if is_inf y then signed_zero (sign_of x * sign_of y)
      else if is_zero y then signed_inf (sign_of x * sign_of y)
      else if is_zero x then signed_zero (sign_of x * sign_of y)
      else in_range (number_of x / number_of y))"

text \<open>
  The place of a value in a descending order with the missing values last, which is
  the order of \<open>sort_values(ascending=False)\<close> and of \<open>nlargest\<close>: the two zeros are
  equal.
\<close>

fun desc_key :: "float64 \<Rightarrow> nat \<times> rat" where
  "desc_key PosInf = (0, 0)"
| "desc_key (Finite a) = (1, - a)"
| "desc_key NegZero = (1, 0)"
| "desc_key NegInf = (2, 0)"
| "desc_key NaN = (3, 0)"

section \<open>The reductions of the library\<close>

text \<open>
  The script hands whole columns to pandas. What comes back for a sum depends on the
  type that \<open>read_csv\<close> gave the column (float64, or int64 for a column of whole
  numbers without a missing cell, whose sums wrap around) and on the summation that
  the library runs (compensated for the sum of a group, pairwise for the sum of a
  column), and for a sort on which of the rows that tie the sorting method puts
  first. None of this is code of the script; the model takes it as the argument
  \<open>library\<close>:
  \<^item> \<open>group_sum\<close>, the sum of the present cells of one group, in row order, as computed
    by \<open>groupby(...).sum()\<close>;
  \<^item> \<open>series_sum\<close>, the same for \<open>Series.sum()\<close>;
  \<^item> \<open>add_sums\<close>, the \<open>+\<close> of line 75 on two columns of sums;
  \<^item> \<open>tie_order\<close>, the positions of the rows in the order in which the default sorting
    method of \<open>sort_values\<close>, which is not stable, leaves the rows that tie.
\<close>

record library =
  group_sum :: "amount list \<Rightarrow> float64"
  series_sum :: "amount list \<Rightarrow> float64"
  add_sums :: "float64 \<Rightarrow> float64 \<Rightarrow> float64"
  tie_order :: "float64 list \<Rightarrow> nat list"

section \<open>Aggregation engine\<close>

text \<open>
  \<open>groupby(key)[col].sum()\<close>: the rows with a missing key belong to no group
  (\<open>dropna=True\<close>); the groups come out sorted by key (\<open>sort=True\<close>); the sum of a
  group skips the missing cells, and it is 0 when no cell is left.
\<close>

definition nansum :: "(amount list \<Rightarrow> float64) \<Rightarrow> amount option list \<Rightarrow> float64" where
  "nansum reduce col =
     (if List.map_filter (\<lambda>c. c) col = [] then Finite 0
      else reduce (List.map_filter (\<lambda>c. c) col))"

definition group_keys :: "('r \<Rightarrow> 'k::linorder option) \<Rightarrow> 'r list \<Rightarrow> 'k list" where
  "group_keys key df = sort (remdups (List.map_filter key df))"

definition group_rows :: "('r \<Rightarrow> 'k option) \<Rightarrow> 'k \<Rightarrow> 'r list \<Rightarrow> 'r list" where
  "group_rows key k df = filter (\<lambda>r. key r = Some k) df"

definition groupby_sum :: "library \<Rightarrow> ('r \<Rightarrow> 'k::linorder option) \<Rightarrow> ('r \<Rightarrow> amount option) \<Rightarrow> 'r list
    \<Rightarrow> ('k \<times> float64) list" where
  "groupby_sum lib key col df =
     map (\<lambda>k. (k, nansum (group_sum lib) (map col (group_rows key k df)))) (group_keys key df)"

text \<open>
  \<open>sort_values(by, ascending=False)\<close>: the rows whose value is not missing, in
  descending order of the value, then the rows whose value is missing, in their order
  of appearance. The default sorting method is not stable; the model lets the library
  arrange the rows first (\<open>arrange\<close> returns its input when the positions are not a
  rearrangement of it) and sorts the result with a stable sort, so that the rows that
  tie come out in the order of the library.
\<close>

definition arrange :: "nat list \<Rightarrow> 'a list \<Rightarrow> 'a list" where
  "arrange positions xs =
     (if sort positions = [0..<length xs] then map (\<lambda>i. xs ! i) positions else xs)"

definition sort_values_desc :: "library \<Rightarrow> ('a \<Rightarrow> float64) \<Rightarrow> 'a list \<Rightarrow> 'a list" where
  "sort_values_desc lib metric xs =
     sort_key (\<lambda>x. desc_key (metric x))
       (arrange (tie_order lib (map metric (filter (\<lambda>x. metric x \<noteq> NaN) xs)))
          (filter (\<lambda>x. metric x \<noteq> NaN) xs))
     @ filter (\<lambda>x. metric x = NaN) xs"

definition head :: "nat \<Rightarrow> 'a list \<Rightarrow> 'a list" where
  "head n xs = take n xs"

text \<open>
  \<open>nlargest(n, by)\<close>: the rows whose value is not missing, in descending order of the
  value, the rows that tie in their order of appearance (\<open>keep='first'\<close>), then the rows
  whose value is missing; the first \<open>n\<close> of them.
\<close>

definition nlargest :: "nat \<Rightarrow> ('a \<Rightarrow> float64) \<Rightarrow> 'a list \<Rightarrow> 'a list" where
  "nlargest n metric xs =
     take n (sort_key (\<lambda>x. desc_key (metric x)) (filter (\<lambda>x. metric x \<noteq> NaN) xs)
             @ filter (\<lambda>x. metric x = NaN) xs)"

text \<open>
  Lines 74 to 76 and 85 to 87. The two value columns are summed per group; the total
  of a group is the sum of the two sums, each with 0 in the place of a missing sum; the
  first \<open>K\<close> groups in descending order of the total are kept. \<open>K\<close> is 10 in both places.
\<close>

definition fillna_sum :: "float64 \<Rightarrow> float64" where
  "fillna_sum x = (if x = NaN then Finite 0 else x)"

definition top_by_value :: "library \<Rightarrow> nat \<Rightarrow> ('a shipment_scheme \<Rightarrow> string option)
    \<Rightarrow> 'a shipment_scheme list \<Rightarrow> (string \<times> float64) list" where
  "top_by_value lib K key df =
     head K (sort_values_desc lib snd
       (map (\<lambda>k. (k, add_sums lib
                       (fillna_sum (nansum (group_sum lib) (map import_value_cif (group_rows key k df))))
                       (fillna_sum (nansum (group_sum lib) (map import_value_fob (group_rows key k df))))))
            (group_keys key df)))"

definition top_importers :: "library \<Rightarrow> 'a shipment_scheme list \<Rightarrow> (string \<times> float64) list" where
  "top_importers lib df = top_by_value lib 10 importer_name df"

definition top_products :: "library \<Rightarrow> 'a shipment_scheme list \<Rightarrow> (string \<times> float64) list" where
  "top_products lib df = top_by_value lib 10 product_details df"

text \<open>
  Line 97. \<open>pd.Grouper(key='ARRIVAL DATE', freq='ME')\<close> bins the rows by calendar
  month. A month is identified here by its ordinal \<open>12 * year + month - 1\<close>; pandas
  labels it by the last day of the month. As the only grouping key, the grouper lays
  out one bin for every month from the month of the earliest row to the month of the
  latest row, and the sum of a bin without rows is 0. A frame without rows has no bin.
\<close>

definition month_bucket :: "timestamp \<Rightarrow> int" where
  "month_bucket t = 12 * year t + int (month t) - 1"

definition bucket_of :: "'a shipment_scheme \<Rightarrow> int option" where
  "bucket_of r = map_option month_bucket (arrival_date r)"

definition month_bins :: "'a shipment_scheme list \<Rightarrow> int list" where
  "month_bins df =
     (let ms = List.map_filter bucket_of df
      in if ms = [] then [] else [Min (set ms) .. Max (set ms)])"

definition time_series_df :: "library \<Rightarrow> valued list \<Rightarrow> (int \<times> float64) list" where
  "time_series_df lib df =
     map (\<lambda>m. (m, nansum (group_sum lib) (map total_value (group_rows bucket_of m df))))
         (month_bins df)"

text \<open>Line 105.\<close>

definition geo_df :: "library \<Rightarrow> valued list \<Rightarrow> (string \<times> float64) list" where
  "geo_df lib df = groupby_sum lib importer_country total_value df"

text \<open>
  Lines 120 to 127. \<open>replace('Pieces', 'PCS')\<close> rewrites the cells equal to
  \<open>'Pieces'\<close>. The ranking is computed only when the unit has rows; otherwise the
  script writes a message.
\<close>

definition replace_pieces :: "'a shipment_scheme list \<Rightarrow> 'a shipment_scheme list" where
  "replace_pieces df =
     map (\<lambda>r. r\<lparr>quantity_unit :=
                  (if quantity_unit r = Some ''Pieces'' then Some ''PCS'' else quantity_unit r)\<rparr>) df"

definition unit_df :: "string \<Rightarrow> 'a shipment_scheme list \<Rightarrow> 'a shipment_scheme list" where
  "unit_df selected_unit df = filter (\<lambda>r. quantity_unit r = Some selected_unit) df"

definition top_by_quantity :: "library \<Rightarrow> nat \<Rightarrow> 'a shipment_scheme list \<Rightarrow> (string \<times> float64) list" where
  "top_by_quantity lib K df = nlargest K snd (groupby_sum lib product_details quantity df)"

definition top_products_by_unit :: "library \<Rightarrow> string \<Rightarrow> 'a shipment_scheme list
    \<Rightarrow> (string \<times> float64) list option" where
  "top_products_by_unit lib selected_unit df =
     (if unit_df selected_unit df \<noteq> []
      then Some (top_by_quantity lib 5 (unit_df selected_unit df))
      else None)"

text \<open>Lines 137 to 139. \<open>unique()\<close> counts the missing name as one value.\<close>

record metrics =
  total_value_kpi :: float64
  num_shipments :: nat
  num_importers :: nat

definition compute_metrics :: "library \<Rightarrow> valued list \<Rightarrow> metrics" where
  "compute_metrics lib df =
     \<lparr>total_value_kpi = nansum (series_sum lib) (map total_value df),
      num_shipments = length df,
      num_importers = length (remdups (map importer_name df))\<rparr>"

text \<open>
  The frame that \<open>filtered_df\<close> refers to after line 96, on which lines 97 and 105
  work, and after line 120, on which lines 124 to 156 work.
\<close>

definition valued_df :: "filter_spec \<Rightarrow> shipment list \<Rightarrow> valued list" where
  "valued_df spec shipping_df = assign_total_value (filtered_df spec shipping_df)"

definition canonical_df :: "filter_spec \<Rightarrow> shipment list \<Rightarrow> valued list" where
  "canonical_df spec shipping_df = replace_pieces (valued_df spec shipping_df)"

section \<open>Growth-rate trend (lines 151 to 156)\<close>

text \<open>
  Line 151. With two grouping keys, the month grouper and the product, the groups are
  the pairs of a month and a product that occur in some row, sorted by month and then
  by product; the rows with a missing product belong to no group.
\<close>

definition cell_of :: "'a shipment_scheme \<Rightarrow> (int \<times> string) option" where
  "cell_of r =
     (case bucket_of r of
        None \<Rightarrow> None
      | Some m \<Rightarrow> (case product_details r of None \<Rightarrow> None | Some p \<Rightarrow> Some (m, p)))"

definition trend_cells :: "library \<Rightarrow> valued list \<Rightarrow> ((int \<times> string) \<times> float64) list" where
  "trend_cells lib df = groupby_sum lib cell_of total_value df"

text \<open>
  Line 152. \<open>groupby('PRODUCT DETAILS')['TOTAL VALUE'].shift(1)\<close> gives every row the
  value of the row before it in its own group, in the order of the frame, and the
  missing value to the first row of each group. \<open>seen\<close> holds, for every group, the
  value of its latest row so far.
\<close>

fun group_shift :: "('k \<rightharpoonup> float64) \<Rightarrow> ('k \<times> float64) list \<Rightarrow> float64 list" where
  "group_shift seen [] = []"
| "group_shift seen ((k, v) # rest) =
     (case seen k of None \<Rightarrow> NaN | Some prev \<Rightarrow> prev) # group_shift (seen(k \<mapsto> v)) rest"

text \<open>Line 153.\<close>

definition growth_rate_of :: "float64 \<Rightarrow> float64 \<Rightarrow> float64" where
  "growth_rate_of current previous = fmul (fdiv (fsub current previous) previous) (Finite 100)"

record trend_row =
  bucket :: int
  product :: string
  total :: float64
  prev_total_value :: float64
  growth_rate :: float64

text \<open>The frame after line 153, and after the \<open>dropna()\<close> of line 154.\<close>

definition trend_rows :: "library \<Rightarrow> valued list \<Rightarrow> trend_row list" where
  "trend_rows lib df =
     (let cells = trend_cells lib df
      in map2 (\<lambda>((m, p), v) prev.
                 \<lparr>bucket = m, product = p, total = v, prev_total_value = prev,
                  growth_rate = growth_rate_of v prev\<rparr>)
              cells (group_shift Map.empty (map (\<lambda>((m, p), v). (p, v)) cells)))"

definition has_na :: "trend_row \<Rightarrow> bool" where
  "has_na r = (total r = NaN \<or> prev_total_value r = NaN \<or> growth_rate r = NaN)"

definition trend_df :: "library \<Rightarrow> valued list \<Rightarrow> trend_row list" where
  "trend_df lib df = filter (\<lambda>r. \<not> has_na r) (trend_rows lib df)"

text \<open>
  Line 156. The mean of a group skips NaN, and an infinite value makes it infinite (NaN
  when both infinities occur). \<open>Series.nlargest(5)\<close> keeps the five largest means.
\<close>

definition fmean :: "float64 list \<Rightarrow> float64" where
  "fmean col =
     (let vs = filter (\<lambda>v. v \<noteq> NaN) col
      in if vs = [] then NaN
         else fdiv (foldl fadd (Finite 0) vs) (Finite (of_nat (length vs))))"

definition groupby_mean :: "trend_row list \<Rightarrow> (string \<times> float64) list" where
  "groupby_mean df =
     map (\<lambda>p. (p, fmean (map growth_rate (group_rows (\<lambda>r. Some (product r)) p df))))
         (group_keys (\<lambda>r. Some (product r)) df)"

definition top_growth_products :: "library \<Rightarrow> valued list \<Rightarrow> (string \<times> float64) list" where
  "top_growth_products lib df = nlargest 5 snd (groupby_mean (trend_df lib df))"

section \<open>Frames as objects\<close>

text \<open>
  The claims about mutation need the frames as objects that variables refer to. A
  frame object holds the rows of the file's columns and the columns that the script
  assigns by name. The heap is the list of the objects created so far; an address is
  an index into it, and addresses only come from \<open>new_frame\<close>.

  \<open>st.cache_data\<close> keeps a serialised copy of the value that the function returned for
  an argument, and hands a fresh object to every caller. \<open>files\<close> is the directory of
  CSV files; a missing file makes \<open>read_csv\<close> raise.
\<close>

datatype error = FileNotFoundError

record frame =
  rows :: "shipment list"
  assigned :: "(string \<times> amount option list) list"

record session =
  heap :: "frame list"
  cache :: "string \<rightharpoonup> shipment list"

definition new_frame :: "frame \<Rightarrow> session \<Rightarrow> nat \<times> session" where
  "new_frame f st = (length (heap st), st\<lparr>heap := heap st @ [f]\<rparr>)"

definition get_shipping_data :: "(string \<rightharpoonup> shipment list) \<Rightarrow> string \<Rightarrow> session
    \<Rightarrow> error + nat \<times> session" where
  "get_shipping_data files company st =
     (case cache st company of
        Some df \<Rightarrow> Inr (new_frame \<lparr>rows = df, assigned = []\<rparr> st)
      | None \<Rightarrow>
          (case files company of
             None \<Rightarrow> Inl FileNotFoundError
           | Some df \<Rightarrow>
               Inr (new_frame \<lparr>rows = df, assigned = []\<rparr>
                      (st\<lparr>cache := (cache st)(company \<mapsto> df)\<rparr>))))"

text \<open>\<open>df[mask]\<close> with a column of booleans: a new frame, with the rows where the mask holds.\<close>

definition keep :: "bool list \<Rightarrow> 'a list \<Rightarrow> 'a list" where
  "keep bs xs = map fst (filter snd (zip xs bs))"

definition getitem_mask :: "bool list \<Rightarrow> frame \<Rightarrow> frame" where
  "getitem_mask bs f =
     \<lparr>rows = keep bs (rows f),
      assigned = map (\<lambda>(name, col). (name, keep bs col)) (assigned f)\<rparr>"

definition bool_index :: "(shipment \<Rightarrow> bool) \<Rightarrow> nat \<Rightarrow> session \<Rightarrow> nat \<times> session" where
  "bool_index P a st =
     new_frame (getitem_mask (map P (rows (heap st ! a))) (heap st ! a)) st"

text \<open>\<open>df[name] = column\<close> changes the object that \<open>df\<close> refers to.\<close>

definition setitem_assigned :: "string \<Rightarrow> (shipment list \<Rightarrow> amount option list) \<Rightarrow> nat
    \<Rightarrow> session \<Rightarrow> session" where
  "setitem_assigned name column a st =
     (let f = heap st ! a
      in st\<lparr>heap := (heap st)
           [a := f\<lparr>assigned := (name, column (rows f)) # filter (\<lambda>c. fst c \<noteq> name) (assigned f)\<rparr>]\<rparr>)"

definition setitem_rows :: "(shipment list \<Rightarrow> shipment list) \<Rightarrow> nat \<Rightarrow> session \<Rightarrow> session" where
  "setitem_rows change a st =
     (let f = heap st ! a in st\<lparr>heap := (heap st)[a := f\<lparr>rows := change (rows f)\<rparr>]\<rparr>)"

text \<open>
  The statements of the script that create or change a frame, in order: lines 40, 50,
  66 to 71, 96 and 120. The result is the address in \<open>shipping_df\<close>, the address in
  \<open>filtered_df\<close> and the session at the end.
\<close>

definition run_script :: "(string \<rightharpoonup> shipment list) \<Rightarrow> string \<Rightarrow> filter_spec \<Rightarrow> session
    \<Rightarrow> error + nat \<times> nat \<times> session" where
  "run_script files selected_company spec st =
     (case get_shipping_data files selected_company st of
        Inl e \<Rightarrow> Inl e
      | Inr (shipping_df, st1) \<Rightarrow>
          (let (fd2, st2) =
                 bool_index (in_date_range (start_date spec) (end_date spec)) shipping_df st1;
               (fd3, st3) =
                 (if selected_importers spec \<noteq> []
                  then bool_index (\<lambda>r. importer_name r \<in> set (selected_importers spec)) fd2 st2
                  else (fd2, st2));
               (fd4, st4) =
                 (if selected_importer_country spec \<noteq> Some ''All''
                  then bool_index (\<lambda>r. selected_importer_country spec \<noteq> None
                         \<and> importer_country r = selected_importer_country spec) fd3 st3
                  else (fd3, st3));
               (fd5, st5) =
                 (if selected_exporter_country spec \<noteq> Some ''All''
                  then bool_index (\<lambda>r. selected_exporter_country spec \<noteq> None
                         \<and> country_of_origin r = selected_exporter_country spec) fd4 st4
                  else (fd4, st4));
               st6 = setitem_assigned ''TOTAL VALUE'' total_value_column fd5 st5;
               st7 = setitem_rows replace_pieces fd5 st6
           in Inr (shipping_df, fd5, st7)))"

section \<open>The words of the specification\<close>

text \<open>\<open>coalesce(x, d)\<close>: \<open>x\<close> when it is present, \<open>d\<close> otherwise.\<close>

definition coalesce :: "amount option \<Rightarrow> amount \<Rightarrow> amount" where
  "coalesce c d = (case c of None \<Rightarrow> d | Some a \<Rightarrow> a)"

text \<open>
  The calendar month of a timestamp, as year and month; such pairs are ordered
  chronologically. A timestamp of pandas has a month from 1 to 12. A row falls in a
  calendar month when it has an arrival date of that month.
\<close>

definition calendar_month :: "timestamp \<Rightarrow> int \<times> nat" where
  "calendar_month t = (year t, month t)"

definition valid_month :: "timestamp \<Rightarrow> bool" where
  "valid_month t = (1 \<le> month t \<and> month t \<le> 12)"

definition valid_dates :: "'a shipment_scheme list \<Rightarrow> bool" where
  "valid_dates df =
     list_all (\<lambda>r. case arrival_date r of None \<Rightarrow> True | Some t \<Rightarrow> valid_month t) df"

definition falls_in :: "int \<times> nat \<Rightarrow> 'a shipment_scheme \<Rightarrow> bool" where
  "falls_in ym r = (case arrival_date r of None \<Rightarrow> False | Some t \<Rightarrow> calendar_month t = ym)"

text \<open>
  The sum of a list of cells as the library computes it, 0 for no cell; and the number
  that a finite float64 value stands for, as an exact sum would give it.
\<close>

definition sum_of_cells :: "(amount list \<Rightarrow> float64) \<Rightarrow> amount list \<Rightarrow> float64" where
  "sum_of_cells reduce cells = (if cells = [] then Finite 0 else reduce cells)"

fun is_finite :: "float64 \<Rightarrow> bool" where
  "is_finite (Finite a) = True"
| "is_finite NegZero = True"
| "is_finite x = False"

text \<open>
  \<open>at_least x y\<close> is the comparison \<open>x >= y\<close> of float64, which is false when either
  side is NaN; in a descending order with the missing values last, \<open>x\<close> may stand
  before \<open>y\<close> when \<open>y\<close> is missing or \<open>x >= y\<close>.
\<close>

fun level :: "float64 \<Rightarrow> int \<times> rat" where
  "level NegInf = (- 1, 0)"
| "level (Finite a) = (0, a)"
| "level NegZero = (0, 0)"
| "level PosInf = (1, 0)"
| "level NaN = (0, 0)"

definition at_least :: "float64 \<Rightarrow> float64 \<Rightarrow> bool" where
  "at_least x y = (x \<noteq> NaN \<and> y \<noteq> NaN \<and> level y \<le> level x)"

definition may_precede :: "float64 \<Rightarrow> float64 \<Rightarrow> bool" where
  "may_precede x y = (y = NaN \<or> at_least x y)"

text \<open>
  The monthly totals of one product, in the order of the frame of line 151; the
  pairing of every total of such a series with the total just before it, missing for
  the first; and the row of the trend frame for a product and an entry of its paired
  series.
\<close>

definition product_series :: "library \<Rightarrow> string \<Rightarrow> valued list \<Rightarrow> (int \<times> float64) list" where
  "product_series lib p df =
     map (\<lambda>c. (fst (fst c), snd c)) (filter (\<lambda>c. snd (fst c) = p) (trend_cells lib df))"

definition with_previous :: "(int \<times> float64) list \<Rightarrow> (int \<times> float64 \<times> float64) list" where
  "with_previous series =
     map2 (\<lambda>c prev. (fst c, snd c, prev)) series (NaN # map snd series)"

definition trend_row_of :: "string \<Rightarrow> int \<times> float64 \<times> float64 \<Rightarrow> trend_row" where
  "trend_row_of p c =
     \<lparr>bucket = fst c, product = p, total = fst (snd c), prev_total_value = snd (snd c),
      growth_rate = growth_rate_of (fst (snd c)) (snd (snd c))\<rparr>"

text \<open>
  Grouping by a key and summing: one pair for every key that occurs, in key order. In
  the ranking by value the total of a group is the library's sum of the present CIF
  cells of the group plus its sum of the present FOB cells, each with 0 for a missing
  sum; in the ranking by quantity it is the library's sum of the present quantities.
\<close>

definition value_groups :: "library \<Rightarrow> ('a shipment_scheme \<Rightarrow> string option) \<Rightarrow> 'a shipment_scheme list
    \<Rightarrow> (string \<times> float64) list" where
  "value_groups lib key df =
     map (\<lambda>k. (k, add_sums lib
                     (fillna_sum (sum_of_cells (group_sum lib)
                        (List.map_filter import_value_cif (filter (\<lambda>r. key r = Some k) df))))
                     (fillna_sum (sum_of_cells (group_sum lib)
                        (List.map_filter import_value_fob (filter (\<lambda>r. key r = Some k) df))))))
         (group_keys key df)"

definition quantity_groups :: "library \<Rightarrow> 'a shipment_scheme list \<Rightarrow> (string \<times> float64) list" where
  "quantity_groups lib df =
     map (\<lambda>k. (k, sum_of_cells (group_sum lib)
                     (List.map_filter quantity (filter (\<lambda>r. product_details r = Some k) df))))
         (group_keys product_details df)"

text \<open>The total value of a record, with 0 for a missing amount.\<close>

definition record_total :: "'a shipment_scheme \<Rightarrow> amount" where
  "record_total r = coalesce (import_value_cif r) 0 + coalesce (import_value_fob r) 0"

text \<open>
  The library is exact on the rows of a group when its two sums and their sum are the
  numbers that exact arithmetic gives.
\<close>

definition exact_total :: "library \<Rightarrow> 'a shipment_scheme list \<Rightarrow> bool" where
  "exact_total lib rs =
     (sum_of_cells (group_sum lib) (List.map_filter import_value_cif rs)
        = Finite (sum_list (List.map_filter import_value_cif rs))
      \<and> sum_of_cells (group_sum lib) (List.map_filter import_value_fob rs)
        = Finite (sum_list (List.map_filter import_value_fob rs))
      \<and> add_sums lib (Finite (sum_list (List.map_filter import_value_cif rs)))
            (Finite (sum_list (List.map_filter import_value_fob rs)))
        = Finite (sum_list (List.map_filter import_value_cif rs)
                  + sum_list (List.map_filter import_value_fob rs)))"

text \<open>
  The sums of a relation are exact when every monthly bucket, every total of a country
  and the KPI are the numbers that exact arithmetic gives for the total values that
  they cover: no rounding, no overflow and no wrap-around took place.
\<close>

definition series_exact :: "library \<Rightarrow> valued list \<Rightarrow> bool" where
  "series_exact lib df =
     list_all (\<lambda>b. snd b = Finite (\<Sum>r\<leftarrow>filter (\<lambda>r. bucket_of r = Some (fst b)) df.
                                     coalesce (total_value r) 0))
       (time_series_df lib df)"

definition geo_exact :: "library \<Rightarrow> valued list \<Rightarrow> bool" where
  "geo_exact lib df =
     list_all (\<lambda>g. snd g = Finite (\<Sum>r\<leftarrow>filter (\<lambda>r. importer_country r = Some (fst g)) df.
                                     coalesce (total_value r) 0))
       (geo_df lib df)"

definition kpi_exact :: "library \<Rightarrow> valued list \<Rightarrow> bool" where
  "kpi_exact lib df =
     (total_value_kpi (compute_metrics lib df) = Finite (\<Sum>r\<leftarrow>df. coalesce (total_value r) 0))"

section \<open>Example relations\<close>

text \<open>
  The library on the amounts of the examples, whole numbers of moderate size: a sum of
  such cells is exact, for float64 and for int64 and in any order of summation. Rows
  that tie stay in their order of appearance. The second library differs where a
  library may: it returns the negative zero of float64 for a sum of 0, and it leaves
  the rows that tie in the reverse order.
\<close>

definition exact_library :: library where
  "exact_library =
     \<lparr>group_sum = (\<lambda>cells. Finite (sum_list cells)),
      series_sum = (\<lambda>cells. Finite (sum_list cells)),
      add_sums = fadd,
      tie_order = (\<lambda>values. [0..<length values])\<rparr>"

definition negative_zero_library :: library where
  "negative_zero_library =
     \<lparr>group_sum = (\<lambda>cells. if sum_list cells = 0 then NegZero else Finite (sum_list cells)),
      series_sum = (\<lambda>cells. Finite (sum_list cells)),
      add_sums = fadd,
      tie_order = (\<lambda>values. rev [0..<length values])\<rparr>"

definition ts :: "int \<Rightarrow> nat \<Rightarrow> nat \<Rightarrow> timestamp" where
  "ts y m d = \<lparr>year = y, month = m, day = d, time_of_day = 0\<rparr>"

definition row :: "timestamp \<Rightarrow> string \<Rightarrow> string option \<Rightarrow> string \<Rightarrow> amount option \<Rightarrow> amount option
    \<Rightarrow> shipment" where
  "row t imp ctry prd cif fob =
     \<lparr>arrival_date = Some t, importer_name = Some imp, importer_country = ctry,
      country_of_origin = Some ''China'', product_details = Some prd,
      import_value_cif = cif, import_value_fob = fob,
      quantity = Some 1, quantity_unit = Some ''PCS''\<rparr>"

definition all_of_2024 :: "string option list \<Rightarrow> filter_spec" where
  "all_of_2024 sel =
     \<lparr>start_date = (2024, 1, 1), end_date = (2024, 12, 31), selected_importers = sel,
      selected_importer_country = Some ''All'', selected_exporter_country = Some ''All''\<rparr>"

definition bucket_relation :: "shipment list" where
  "bucket_relation =
     [row (ts 2024 1 5) ''Acme'' (Some ''India'') ''Valve'' (Some 100) None,
      row (ts 2024 1 28) ''Bolt'' (Some ''India'') ''Pump'' None (Some 50),
      row (ts 2024 2 1) ''Acme'' (Some ''Kenya'') ''Valve'' (Some 30) (Some 5)]"

definition absent_relation :: "shipment list" where
  "absent_relation =
     [row (ts 2024 1 5) ''Acme'' (Some ''India'') ''Valve'' None None,
      row (ts 2024 1 6) ''Acme'' (Some ''India'') ''Valve'' (Some 7) None,
      row (ts 2024 1 7) ''Acme'' (Some ''India'') ''Valve'' (Some 7) (Some (5 / 2))]"

definition three_importers :: "shipment list" where
  "three_importers =
     [row (ts 2024 1 5) ''Acme'' (Some ''India'') ''Valve'' (Some 100) None,
      row (ts 2024 1 28) ''Bolt'' (Some ''India'') ''Pump'' (Some 20) (Some 400),
      row (ts 2024 2 1) ''Crane'' (Some ''Kenya'') ''Valve'' (Some 30) (Some 5)]"

definition gap_relation :: "shipment list" where
  "gap_relation =
     [row (ts 2024 1 5) ''Acme'' (Some ''India'') ''Valve'' (Some 100) None,
      row (ts 2024 3 9) ''Acme'' (Some ''India'') ''Valve'' None (Some 50)]"

definition no_country_relation :: "shipment list" where
  "no_country_relation =
     [row (ts 2024 1 5) ''Acme'' None ''Valve'' (Some 5) None,
      row (ts 2024 1 9) ''Acme'' (Some ''India'') ''Valve'' (Some 2) None]"

definition growth_relation :: "shipment list" where
  "growth_relation =
     [row (ts 2024 1 5) ''Acme'' (Some ''India'') ''Valve'' (Some 100) None,
      row (ts 2024 2 1) ''Bolt'' (Some ''India'') ''Valve'' (Some 100) (Some 50),
      row (ts 2024 2 3) ''Bolt'' (Some ''India'') ''Pump'' (Some 8) None]"

definition zero_prev_relation :: "shipment list" where
  "zero_prev_relation =
     [row (ts 2024 1 5) ''Acme'' (Some ''India'') ''Valve'' (Some 0) None,
      row (ts 2024 2 1) ''Acme'' (Some ''India'') ''Valve'' (Some 100) None,
      row (ts 2024 1 7) ''Acme'' (Some ''India'') ''Pump'' None None,
      row (ts 2024 2 9) ''Acme'' (Some ''India'') ''Pump'' (Some 0) None]"

definition year_end_relation :: "shipment list" where
  "year_end_relation =
     [row (ts 2024 1 9) ''Acme'' (Some ''India'') ''Valve'' (Some 150) None,
      row (ts 2023 12 5) ''Acme'' (Some ''India'') ''Valve'' (Some 100) None]"

definition two_files :: "string \<rightharpoonup> shipment list" where
  "two_files = [''WOM'' \<mapsto> bucket_relation, ''JVS'' \<mapsto> absent_relation]"

definition fresh_session :: session where
  "fresh_session = \<lparr>heap = [], cache = Map.empty\<rparr>"

definition session_after :: session where
  "session_after =
     \<lparr>heap =
        [\<lparr>rows = bucket_relation, assigned = []\<rparr>,
         \<lparr>rows = bucket_relation, assigned = []\<rparr>,
         \<lparr>rows = [row (ts 2024 1 28) ''Bolt'' (Some ''India'') ''Pump'' None (Some 50)],
          assigned = [(''TOTAL VALUE'', [Some 50])]\<rparr>],
      cache = [''WOM'' \<mapsto> bucket_relation]\<rparr>"

section \<open>Properties of the filter engine\<close>

lemma in_date_range_narrow:
  assumes "s \<le> s'" and "e' \<le> e" and "in_date_range s' e' r"
  shows "in_date_range s e r"
  using assms unfolding in_date_range_def
  by (auto split: option.splits intro: order_trans)

text \<open>
  Claim C5. Every row that the date filter of line 50 keeps has an arrival date whose
  date part lies between the two bounds, both included; a narrower range never keeps
  more rows; and the time of day of a row has no part in whether the row is kept.
\<close>

theorem date_filter_inclusive_monotone:
  "(\<forall>r \<in> set (date_filter s e R).
      \<exists>t. arrival_date r = Some t \<and> s \<le> dt_date t \<and> dt_date t \<le> e)
   \<and> (s \<le> s' \<and> e' \<le> e \<longrightarrow> length (date_filter s' e' R) \<le> length (date_filter s e R))
   \<and> in_date_range s e (r\<lparr>arrival_date := Some (t\<lparr>time_of_day := x\<rparr>)\<rparr>)
       = in_date_range s e (r\<lparr>arrival_date := Some t\<rparr>)"
proof (intro conjI ballI impI)
  show "in_date_range s e (r\<lparr>arrival_date := Some (t\<lparr>time_of_day := x\<rparr>)\<rparr>)
       = in_date_range s e (r\<lparr>arrival_date := Some t\<rparr>)"
    by (simp add: in_date_range_def dt_date_def)
next
  fix r assume "r \<in> set (date_filter s e R)"
  then have "in_date_range s e r"
    by (simp add: date_filter_def)
  then show "\<exists>t. arrival_date r = Some t \<and> s \<le> dt_date t \<and> dt_date t \<le> e"
    by (auto simp: in_date_range_def split: option.splits)
next
  assume narrow: "s \<le> s' \<and> e' \<le> e"
  have "date_filter s' e' R = filter (in_date_range s' e') (date_filter s e R)"
    unfolding date_filter_def filter_filter
    by (rule filter_cong) (use narrow in_date_range_narrow in blast)+
  then show "length (date_filter s' e' R) \<le> length (date_filter s e R)"
    by (metis length_filter_le)
qed

theorem date_filter_inclusive_monotone_witness:
  "((2024, 1, 1) :: date) \<le> (2024, 1, 10) \<and> ((2024, 1, 31) :: date) \<le> (2024, 2, 1)
   \<and> length (date_filter (2024, 1, 10) (2024, 1, 31) bucket_relation) = 1
   \<and> length (date_filter (2024, 1, 1) (2024, 2, 1) bucket_relation) = 3
   \<and> date_filter (2024, 1, 5) (2024, 1, 28) bucket_relation
       = [row (ts 2024 1 5) ''Acme'' (Some ''India'') ''Valve'' (Some 100) None,
          row (ts 2024 1 28) ''Bolt'' (Some ''India'') ''Pump'' None (Some 50)]"
  using date_filter_inclusive_monotone
    [of "(2024, 1, 1)" "(2024, 2, 1)" bucket_relation "(2024, 1, 10)" "(2024, 1, 31)"]
  by (simp add: date_filter_def in_date_range_def bucket_relation_def row_def ts_def dt_date_def)

text \<open>
  Claim C1, as stated, fails: with an empty importer selection the guard of line 66
  skips the importer filter, and the three rows of the example all pass, through the
  importer stage and through the whole filter engine.
\<close>

theorem importer_filter_empty_counterexample:
  "importer_filter [] bucket_relation = bucket_relation
   \<and> filtered_df (all_of_2024 []) bucket_relation = bucket_relation
   \<and> length bucket_relation = 3"
  by (simp add: importer_filter_def filtered_df_def all_of_2024_def eq_filter_def
      date_filter_def in_date_range_def bucket_relation_def row_def ts_def dt_date_def)

text \<open>
  Claim C1, amended. With an empty importer selection the importer stage is skipped
  and every row of its input passes; with a selection that is not empty, exactly the
  rows whose importer name is in the selection pass.
\<close>

theorem importer_filter_guarded:
  "importer_filter [] df = df
   \<and> (sel \<noteq> [] \<longrightarrow> importer_filter sel df = filter (\<lambda>r. importer_name r \<in> set sel) df)"
  by (simp add: importer_filter_def)

theorem importer_filter_guarded_witness:
  "[Some ''Bolt''] \<noteq> []
   \<and> importer_filter [Some ''Bolt''] bucket_relation
       = [row (ts 2024 1 28) ''Bolt'' (Some ''India'') ''Pump'' None (Some 50)]"
  using importer_filter_guarded [of bucket_relation "[Some ''Bolt'']"]
  by (simp add: bucket_relation_def row_def)

section \<open>Properties of the derived column\<close>

lemma total_value_column_eq:
  "total_value_column df =
     map (\<lambda>r. Some (coalesce (import_value_cif r) 0 + coalesce (import_value_fob r) 0)) df"
  by (induction df)
     (auto simp: total_value_column_def fillna_def col_add_def coalesce_def split: option.splits)

lemma assign_total_value_eq:
  "assign_total_value df =
     map (\<lambda>r. set_total_value r
                 (Some (coalesce (import_value_cif r) 0 + coalesce (import_value_fob r) 0))) df"
  unfolding assign_total_value_def total_value_column_eq
  by (induction df) auto




section \<open>Empty input\<close>

lemma arrange_Nil: "arrange positions [] = []"
proof -
  have "sort positions = [] \<Longrightarrow> positions = []"
    by (metis length_0_conv length_sort)
  then show ?thesis
    by (auto simp: arrange_def)
qed

text \<open>
  Claim C8. On a relation without rows every aggregation returns the empty sequence:
  the rankings by value and by quantity, the time series, the country rollup, the
  trend and the growth ranking. For the ranking by unit the script finds no row of the
  unit, computes no ranking and writes a message. The metrics are 0, 0 and 0. None of
  these operations has a failing branch.
\<close>

theorem empty_relation_tolerated:
  "top_by_value lib K key [] = [] \<and> top_importers lib [] = [] \<and> top_products lib [] = []
   \<and> top_by_quantity lib K [] = [] \<and> top_products_by_unit lib u [] = None
   \<and> time_series_df lib [] = [] \<and> geo_df lib [] = []
   \<and> trend_df lib [] = [] \<and> top_growth_products lib [] = []
   \<and> compute_metrics lib []
       = \<lparr>total_value_kpi = Finite 0, num_shipments = 0, num_importers = 0\<rparr>
   \<and> assign_total_value [] = [] \<and> replace_pieces [] = [] \<and> unit_df u [] = []"
  by (simp add: top_by_value_def replace_pieces_def
      top_importers_def top_products_def top_by_quantity_def
      top_products_by_unit_def unit_df_def time_series_df_def month_bins_def geo_df_def
      groupby_sum_def group_keys_def trend_df_def trend_rows_def trend_cells_def
      top_growth_products_def groupby_mean_def nlargest_def head_def
      sort_values_desc_def arrange_Nil compute_metrics_def nansum_def assign_total_value_def
      total_value_column_def fillna_def col_add_def List.map_filter_simps)

section \<open>The source relation is not mutated\<close>

lemma keep_map: "keep (map P xs) xs = filter P xs"
  by (induction xs) (auto simp: keep_def)

lemma bool_index_result:
  assumes "bool_index P a st = (a', st')" and "assigned (heap st ! a) = []"
  shows "a' = length (heap st)"
    and "heap st' = heap st @ [\<lparr>rows = filter P (rows (heap st ! a)), assigned = []\<rparr>]"
    and "cache st' = cache st"
  using assms by (auto simp: bool_index_def new_frame_def getitem_mask_def keep_map)

lemma filter_step:
  assumes step: "(if c then bool_index P a st else (a, st)) = (a', st')"
    and a: "a < length (heap st)" and plain: "assigned (heap st ! a) = []"
  shows "a' < length (heap st')" and "a \<le> a'"
    and "assigned (heap st' ! a') = []"
    and "rows (heap st' ! a') = (if c then filter P (rows (heap st ! a)) else rows (heap st ! a))"
    and "cache st' = cache st"
    and "take (length (heap st)) (heap st') = heap st"
proof -
  have "a' < length (heap st') \<and> a \<le> a' \<and> assigned (heap st' ! a') = []
      \<and> rows (heap st' ! a') = (if c then filter P (rows (heap st ! a)) else rows (heap st ! a))
      \<and> cache st' = cache st \<and> take (length (heap st)) (heap st') = heap st"
  proof (cases c)
    case True
    then have b: "bool_index P a st = (a', st')"
      using step by simp
    note r = bool_index_result [OF b plain]
    show ?thesis
      using a True by (simp add: r)
  next
    case False
    then have "a' = a" "st' = st"
      using step by simp_all
    then show ?thesis
      using a plain False by simp
  qed
  then show "a' < length (heap st')" "a \<le> a'" "assigned (heap st' ! a') = []"
    "rows (heap st' ! a') = (if c then filter P (rows (heap st ! a)) else rows (heap st ! a))"
    "cache st' = cache st" "take (length (heap st)) (heap st') = heap st"
    by simp_all
qed

lemma get_shipping_data_result:
  assumes "get_shipping_data files company st = Inr (a, st')"
  shows "\<exists>R. a = length (heap st) \<and> heap st' = heap st @ [\<lparr>rows = R, assigned = []\<rparr>]
    \<and> cache st' = (cache st)(company \<mapsto> R)
    \<and> (case cache st company of Some R0 \<Rightarrow> R = R0 | None \<Rightarrow> files company = Some R)"
  using assms
  by (auto simp: get_shipping_data_def new_frame_def split: option.splits)


lemma take_chain:
  assumes "take (length b) c = b" and "take (length a) b = a"
  shows "take (length a) c = a"
proof -
  have "length a \<le> length b"
    using assms(2) by (metis length_take min.cobounded1)
  then have "take (length a) c = take (length a) (take (length b) c)"
    by (simp add: min.absorb1)
  then show ?thesis
    by (simp add: assms)
qed

lemma nth_of_take:
  assumes "take (length a) c = a" and "i < length a"
  shows "c ! i = a ! i"
  by (metis assms nth_take)

lemma frame_updated:
  fixes f :: frame
  shows "f\<lparr>assigned := A, rows := B\<rparr> = \<lparr>rows = B, assigned = A\<rparr>"
  by (cases f) simp

text \<open>
  Claim C9. Whenever the script runs through its filters and its two assignments to
  columns, the frame that \<open>shipping_df\<close> refers to is at the end the relation of
  the company as loaded, with no column added and no cell changed, and so is the
  relation in the cache; the frame that \<open>filtered_df\<close> refers to is another
  object, which holds the filtered rows with the canonical units and the column of
  total values; and no object that existed before the run has changed.
\<close>

theorem source_never_mutated:
  assumes run: "run_script files company spec st = Inr (src, fd, st')"
  shows "\<exists>R. heap st' ! src = \<lparr>rows = R, assigned = []\<rparr>
     \<and> cache st' = (cache st)(company \<mapsto> R)
     \<and> (case cache st company of Some R0 \<Rightarrow> R = R0 \<and> cache st' = cache st
         | None \<Rightarrow> files company = Some R)
     \<and> src = length (heap st) \<and> src < fd \<and> fd < length (heap st')
     \<and> take (length (heap st)) (heap st') = heap st
     \<and> rows (heap st' ! fd) = replace_pieces (filtered_df spec R)
     \<and> assigned (heap st' ! fd) = [(''TOTAL VALUE'', total_value_column (filtered_df spec R))]"
proof -
  obtain a1 st1 where load: "get_shipping_data files company st = Inr (a1, st1)"
    using run by (auto simp: run_script_def split: sum.splits)
  then obtain R where a1: "a1 = length (heap st)"
    and h1: "heap st1 = heap st @ [\<lparr>rows = R, assigned = []\<rparr>]"
    and c1: "cache st1 = (cache st)(company \<mapsto> R)"
    and src: "case cache st company of Some R0 \<Rightarrow> R = R0 | None \<Rightarrow> files company = Some R"
    using get_shipping_data_result by blast
  let ?P2 = "in_date_range (start_date spec) (end_date spec)"
  let ?c3 = "selected_importers spec \<noteq> []"
  let ?P3 = "\<lambda>r::shipment. importer_name r \<in> set (selected_importers spec)"
  let ?c4 = "selected_importer_country spec \<noteq> Some ''All''"
  let ?P4 = "\<lambda>r::shipment. selected_importer_country spec \<noteq> None
      \<and> importer_country r = selected_importer_country spec"
  let ?c5 = "selected_exporter_country spec \<noteq> Some ''All''"
  let ?P5 = "\<lambda>r::shipment. selected_exporter_country spec \<noteq> None
      \<and> country_of_origin r = selected_exporter_country spec"
  obtain a2 st2 where s2: "bool_index ?P2 a1 st1 = (a2, st2)"
    by (metis surj_pair)
  obtain a3 st3 where s3: "(if ?c3 then bool_index ?P3 a2 st2 else (a2, st2)) = (a3, st3)"
    by (metis surj_pair)
  obtain a4 st4 where s4: "(if ?c4 then bool_index ?P4 a3 st3 else (a3, st3)) = (a4, st4)"
    by (metis surj_pair)
  obtain a5 st5 where s5: "(if ?c5 then bool_index ?P5 a4 st4 else (a4, st4)) = (a5, st5)"
    by (metis surj_pair)
  define st6 where "st6 = setitem_assigned ''TOTAL VALUE'' total_value_column a5 st5"
  define st7 where "st7 = setitem_rows replace_pieces a5 st6"
  have "run_script files company spec st = Inr (a1, a5, st7)"
    by (simp add: run_script_def load s2 s3 s4 s5 st6_def st7_def Let_def)
  with run have res: "src = a1" "fd = a5" "st' = st7"
    by simp_all
  have at1: "heap st1 ! a1 = \<lparr>rows = R, assigned = []\<rparr>" and len1: "length (heap st1) = a1 + 1"
    by (simp_all add: h1 a1)
  have t1: "take (length (heap st)) (heap st1) = heap st"
    by (simp add: h1)
  have plain1: "assigned (heap st1 ! a1) = []"
    by (simp add: at1)
  note r2 = bool_index_result [OF s2 plain1]
  have a2: "a2 < length (heap st2)" "a1 < a2" "assigned (heap st2 ! a2) = []"
    "rows (heap st2 ! a2) = date_filter (start_date spec) (end_date spec) R"
    "cache st2 = cache st1" "take (length (heap st1)) (heap st2) = heap st1"
    by (simp_all add: r2 len1 at1 date_filter_def nth_append)
  note r3 = filter_step [OF s3 a2(1) a2(3)]
  note r4 = filter_step [OF s4 r3(1) r3(3)]
  note r5 = filter_step [OF s5 r4(1) r4(3)]
  have rows5: "rows (heap st5 ! a5) = filtered_df spec R"
    by (simp add: r5(4) r4(4) r3(4) a2(4) filtered_df_def eq_filter_def importer_filter_def)
  have lt: "a1 < a5"
    using a2(2) r3(2) r4(2) r5(2) by simp
  have t5: "take (length (heap st1)) (heap st5) = heap st1"
    using take_chain [OF r5(6) take_chain [OF r4(6) take_chain [OF r3(6) a2(6)]]] .
  have cache5: "cache st5 = (cache st)(company \<mapsto> R)"
    by (simp add: r5(5) r4(5) r3(5) a2(5) c1)
  have at5: "heap st5 ! a1 = \<lparr>rows = R, assigned = []\<rparr>"
    using nth_of_take [OF t5, of a1] by (simp add: len1 at1)
  have heap7: "heap st7 = (heap st5)[a5 := \<lparr>rows = replace_pieces (filtered_df spec R),
      assigned = [(''TOTAL VALUE'', total_value_column (filtered_df spec R))]\<rparr>]"
    and cache7: "cache st7 = cache st5"
    using r5(1)
    by (simp_all add: st7_def st6_def setitem_rows_def setitem_assigned_def Let_def rows5 r5(3)
        frame_updated)
  have "take (length (heap st)) (heap st7) = heap st"
  proof -
    have "length (heap st) \<le> a5"
      using lt a1 by simp
    then have "take (length (heap st)) (heap st7) = take (length (heap st)) (heap st5)"
      by (simp add: heap7)
    also have "\<dots> = heap st"
      using take_chain [OF t5 t1] .
    finally show ?thesis .
  qed
  moreover have "heap st7 ! a1 = \<lparr>rows = R, assigned = []\<rparr>"
    using lt by (simp add: heap7 at5)
  moreover have "rows (heap st7 ! a5) = replace_pieces (filtered_df spec R)"
    "assigned (heap st7 ! a5) = [(''TOTAL VALUE'', total_value_column (filtered_df spec R))]"
    "a5 < length (heap st7)"
    using r5(1) by (simp_all add: heap7)
  moreover have "case cache st company of Some R0 \<Rightarrow> R = R0 \<and> cache st7 = cache st
      | None \<Rightarrow> files company = Some R"
    using src by (auto simp: cache7 cache5 split: option.splits)
  ultimately show ?thesis
    using lt a1 cache5 cache7 unfolding res by (intro exI [of _ R]) simp
qed


theorem source_never_mutated_witness:
  "run_script two_files ''WOM'' (all_of_2024 [Some ''Bolt'']) fresh_session
     = Inr (0, 2, session_after)
   \<and> heap session_after ! 0 = \<lparr>rows = bucket_relation, assigned = []\<rparr>
   \<and> cache session_after ''WOM'' = Some bucket_relation"
proof -
  have run: "run_script two_files ''WOM'' (all_of_2024 [Some ''Bolt'']) fresh_session
     = Inr (0, 2, session_after)"
    by (simp add: run_script_def get_shipping_data_def new_frame_def fresh_session_def
        two_files_def bool_index_def getitem_mask_def keep_def all_of_2024_def
        in_date_range_def dt_date_def bucket_relation_def row_def ts_def
        setitem_assigned_def setitem_rows_def total_value_column_def fillna_def col_add_def
        replace_pieces_def session_after_def Let_def)
  show ?thesis
    using source_never_mutated [OF run] run
    by (simp add: session_after_def)
qed

section \<open>Properties of grouping and ranking\<close>

lemma set_map_filter_key: "set (List.map_filter key df) = {k. \<exists>r \<in> set df. key r = Some k}"
  by (induction df) (auto simp: List.map_filter_simps split: option.splits)

lemma set_group_keys: "set (group_keys key df) = {k. \<exists>r \<in> set df. key r = Some k}"
  by (simp add: group_keys_def set_map_filter_key)

lemma distinct_group_keys: "distinct (group_keys key df)"
  by (simp add: group_keys_def)

lemma sorted_group_keys: "sorted_wrt (<) (group_keys key df)"
  by (simp add: group_keys_def strict_sorted_iff)

lemma length_group_keys: "length (group_keys key df) = card {k. \<exists>r \<in> set df. key r = Some k}"
  using distinct_card [OF distinct_group_keys, of key df] by (simp add: set_group_keys)

lemma map_filter_id_map: "List.map_filter (\<lambda>c. c) (map col rs) = List.map_filter col rs"
  by (induction rs) (simp_all add: List.map_filter_simps split: option.splits)

lemma nansum_cells:
  "nansum reduce (map col rs) = sum_of_cells reduce (List.map_filter col rs)"
  by (simp add: nansum_def sum_of_cells_def map_filter_id_map)

lemma arrange_props:
  "set (arrange positions xs) = set xs"
  "length (arrange positions xs) = length xs"
  "distinct (arrange positions xs) = distinct xs"
proof -
  let ?n = "length xs"
  have perm: "sort positions = [0..<?n] \<Longrightarrow>
      set positions = {0..<?n} \<and> length positions = ?n \<and> distinct positions"
    by (metis atLeastLessThan_upt distinct_sort distinct_upt length_sort length_upt
        minus_nat.diff_0 set_sort)
  show "set (arrange positions xs) = set xs"
  proof (cases "sort positions = [0..<?n]")
    case True
    then have "set (map (\<lambda>i. xs ! i) positions) = (\<lambda>i. xs ! i) ` {0..<?n}"
      using perm by simp
    also have "\<dots> = set xs"
      by (auto simp: set_conv_nth)
    finally show ?thesis
      using True by (simp add: arrange_def)
  qed (simp add: arrange_def)
  show "length (arrange positions xs) = length xs"
    using perm by (simp add: arrange_def)
  show "distinct (arrange positions xs) = distinct xs"
  proof (cases "sort positions = [0..<?n]")
    case True
    have "distinct (map (\<lambda>i. xs ! i) positions) = distinct xs"
    proof
      assume d: "distinct (map (\<lambda>i. xs ! i) positions)"
      then have "inj_on (\<lambda>i. xs ! i) {0..<?n}"
        using perm [OF True] by (simp add: distinct_map)
      then show "distinct xs"
        by (auto simp: distinct_conv_nth inj_on_def)
    next
      assume "distinct xs"
      then have "inj_on (\<lambda>i. xs ! i) {0..<?n}"
        by (simp add: inj_on_def nth_eq_iff_index_eq)
      then show "distinct (map (\<lambda>i. xs ! i) positions)"
        using perm [OF True] by (simp add: distinct_map)
    qed
    then show ?thesis
      using True by (simp add: arrange_def)
  qed (simp add: arrange_def)
qed

lemma desc_key_order:
  assumes "x \<noteq> NaN" and "y \<noteq> NaN"
  shows "desc_key x \<le> desc_key y \<longleftrightarrow> at_least x y"
  using assms by (cases x; cases y) (auto simp: at_least_def)

lemma desc_key_may_precede:
  assumes "desc_key x \<le> desc_key y"
  shows "may_precede x y"
proof (cases "y = NaN")
  case True
  then show ?thesis by (simp add: may_precede_def)
next
  case False
  then have "x \<noteq> NaN"
    using assms by (cases x; cases y) auto
  then show ?thesis
    using assms False by (simp add: may_precede_def desc_key_order)
qed


lemma ranked_props:
  fixes gs :: "('k \<times> float64) list" and K :: nat
  assumes pre: "set pre = set (filter (\<lambda>x. snd x \<noteq> NaN) gs)"
      "length pre = length (filter (\<lambda>x. snd x \<noteq> NaN) gs)"
      "distinct pre = distinct (filter (\<lambda>x. snd x \<noteq> NaN) gs)"
    and keys: "distinct (map fst gs)"
  defines "ys \<equiv> sort_key (\<lambda>x. desc_key (snd x)) pre @ filter (\<lambda>x. snd x = NaN) gs"
  shows "length (take K ys) = min K (length gs)"
    and "sorted_wrt (\<lambda>a b. may_precede (snd a) (snd b)) (take K ys)"
    and "set (take K ys) \<subseteq> set gs"
    and "distinct (map fst (take K ys))"
    and "\<forall>g \<in> set gs - set (take K ys). \<forall>x \<in> set (take K ys). may_precede (snd x) (snd g)"
proof -
  let ?R = "\<lambda>a b :: 'k \<times> float64. may_precede (snd a) (snd b)"
  let ?s = "sort_key (\<lambda>x. desc_key (snd x)) pre"
  let ?m = "filter (\<lambda>x. snd x = NaN) gs"
  have set_ys: "set ys = set gs"
    using pre(1) by (auto simp: ys_def)
  have "length (filter (\<lambda>x. snd x \<noteq> NaN) gs) + length ?m = length gs"
    using sum_length_filter_compl [of "\<lambda>x. snd x \<noteq> NaN" gs] by simp
  then have len_ys: "length ys = length gs"
    using pre(2) by (simp add: ys_def)
  have "sorted (map (\<lambda>x. desc_key (snd x)) ?s)"
    by (rule sorted_sort_key)
  then have "sorted_wrt (\<lambda>a b. desc_key (snd a) \<le> desc_key (snd b)) ?s"
    by (simp only: sorted_map)
  then have s1: "sorted_wrt ?R ?s"
    by (rule sorted_wrt_mono_rel [rotated]) (simp add: desc_key_may_precede)
  have "sorted_wrt (\<lambda>a b. True) ?m"
    by (simp add: sorted_wrt_true)
  then have s2: "sorted_wrt ?R ?m"
    by (rule sorted_wrt_mono_rel [rotated]) (simp add: may_precede_def)
  have sorted_ys: "sorted_wrt ?R ys"
    unfolding ys_def sorted_wrt_append using s1 s2 by (auto simp: may_precede_def)
  have dgs: "distinct gs" and inj: "inj_on fst (set gs)"
    using keys by (simp_all add: distinct_map)
  have "distinct ?s"
    using pre(3) dgs by simp
  moreover have "distinct ?m"
    using dgs by simp
  moreover have "set ?s \<inter> set ?m = {}"
    using pre(1) by auto
  ultimately have "distinct ys"
    by (simp add: ys_def)
  then have dk: "distinct (map fst ys)"
    using inj set_ys by (simp add: distinct_map)
  show "length (take K ys) = min K (length gs)"
    by (simp add: len_ys min.commute)
  show "sorted_wrt ?R (take K ys)"
    using sorted_ys by (rule sorted_wrt_take)
  show "set (take K ys) \<subseteq> set gs"
    using set_take_subset [of K ys] set_ys by simp
  show "distinct (map fst (take K ys))"
    using dk by (simp add: take_map [symmetric])
  show "\<forall>g \<in> set gs - set (take K ys). \<forall>x \<in> set (take K ys). may_precede (snd x) (snd g)"
  proof (intro ballI)
    fix g x assume g: "g \<in> set gs - set (take K ys)" and x: "x \<in> set (take K ys)"
    have "set ys = set (take K ys) \<union> set (drop K ys)"
      by (metis append_take_drop_id set_append)
    with g set_ys have "g \<in> set (drop K ys)"
      by auto
    moreover have "sorted_wrt ?R (take K ys @ drop K ys)"
      using sorted_ys by simp
    ultimately show "may_precede (snd x) (snd g)"
      using x unfolding sorted_wrt_append by blast
  qed
qed

text \<open>The groups with their totals, before the sort of line 76 and before line 127.\<close>

lemma top_by_value_eq:
  "top_by_value lib K key df =
     take K (sort_key (\<lambda>x. desc_key (snd x))
               (arrange (tie_order lib (map snd (filter (\<lambda>x. snd x \<noteq> NaN) (value_groups lib key df))))
                  (filter (\<lambda>x. snd x \<noteq> NaN) (value_groups lib key df)))
             @ filter (\<lambda>x. snd x = NaN) (value_groups lib key df))"
  by (simp add: top_by_value_def head_def sort_values_desc_def value_groups_def nansum_cells
      group_rows_def)

lemma top_by_quantity_eq:
  "top_by_quantity lib K df =
     take K (sort_key (\<lambda>x. desc_key (snd x)) (filter (\<lambda>x. snd x \<noteq> NaN) (quantity_groups lib df))
             @ filter (\<lambda>x. snd x = NaN) (quantity_groups lib df))"
  by (simp add: top_by_quantity_def nlargest_def groupby_sum_def quantity_groups_def nansum_cells
      group_rows_def)

lemma fst_value_groups: "map fst (value_groups lib key df) = group_keys key df"
  by (simp add: value_groups_def o_def)

lemma fst_quantity_groups: "map fst (quantity_groups lib df) = group_keys product_details df"
  by (simp add: quantity_groups_def o_def)


lemma sum_list_map_filter:
  "sum_list (List.map_filter col rs) = (\<Sum>r\<leftarrow>rs. coalesce (col r) 0)"
  by (induction rs) (auto simp: List.map_filter_simps coalesce_def split: option.splits)

lemma exact_total_value:
  assumes "exact_total lib rs"
  shows "add_sums lib
      (fillna_sum (sum_of_cells (group_sum lib) (List.map_filter import_value_cif rs)))
      (fillna_sum (sum_of_cells (group_sum lib) (List.map_filter import_value_fob rs)))
    = Finite (\<Sum>r\<leftarrow>rs. record_total r)"
  using assms
  by (simp add: exact_total_def fillna_sum_def record_total_def sum_list_addf sum_list_map_filter)

text \<open>
  Claim C7. For every relation, every \<open>K\<close> and whatever sums and tie order the
  library gives, the ranking by value (lines 74 to 76, 85 to 87) and the ranking by
  quantity (lines 126 and 127) hold at most \<open>K\<close> groups, as many as there are when
  there are fewer; every entry is a group of the key column with its summed metric;
  no key occurs twice; the entries are in descending order of the sum, and no group
  left out may stand before one that is kept. The metric of the ranking by value is
  the sum of the CIF values plus the sum of the FOB values of the group, which is the
  sum of the total values of its records where the library's sums are exact. With
  \<open>K = 10\<close> and three groups the ranking has exactly three entries.
\<close>

theorem top_k_by_group:
  "length (top_by_value lib K key df) \<le> K
   \<and> length (top_by_value lib K key df) = min K (length (group_keys key df))
   \<and> sorted_wrt (\<lambda>a b. may_precede (snd a) (snd b)) (top_by_value lib K key df)
   \<and> set (top_by_value lib K key df) \<subseteq> set (value_groups lib key df)
   \<and> distinct (map fst (top_by_value lib K key df))
   \<and> (\<forall>g \<in> set (value_groups lib key df) - set (top_by_value lib K key df).
         \<forall>x \<in> set (top_by_value lib K key df). may_precede (snd x) (snd g))
   \<and> length (top_by_quantity lib K df) \<le> K
   \<and> length (top_by_quantity lib K df) = min K (length (group_keys product_details df))
   \<and> sorted_wrt (\<lambda>a b. may_precede (snd a) (snd b)) (top_by_quantity lib K df)
   \<and> set (top_by_quantity lib K df) \<subseteq> set (quantity_groups lib df)
   \<and> distinct (map fst (top_by_quantity lib K df))
   \<and> (\<forall>g \<in> set (quantity_groups lib df) - set (top_by_quantity lib K df).
         \<forall>x \<in> set (top_by_quantity lib K df). may_precede (snd x) (snd g))
   \<and> set (group_keys key df) = {k. \<exists>r \<in> set df. key r = Some k}
   \<and> length (group_keys key df) = card {k. \<exists>r \<in> set df. key r = Some k}
   \<and> (length (group_keys key df) = 3 \<longrightarrow> length (top_by_value lib 10 key df) = 3)
   \<and> ((k, v) \<in> set (value_groups lib key df) \<and> exact_total lib (filter (\<lambda>r. key r = Some k) df)
        \<longrightarrow> v = Finite (\<Sum>r\<leftarrow>filter (\<lambda>r. key r = Some k) df. record_total r))"
proof -
  let ?vg = "value_groups lib key df"
  let ?qg = "quantity_groups lib df"
  have d1: "distinct (map fst ?vg)"
    by (simp add: fst_value_groups distinct_group_keys)
  have d2: "distinct (map fst ?qg)"
    by (simp add: fst_quantity_groups distinct_group_keys)
  have l1: "length ?vg = length (group_keys key df)"
    by (simp add: value_groups_def)
  have l2: "length ?qg = length (group_keys product_details df)"
    by (simp add: quantity_groups_def)
  note a = arrange_props [of "tie_order lib (map snd (filter (\<lambda>x. snd x \<noteq> NaN) ?vg))"
      "filter (\<lambda>x. snd x \<noteq> NaN) ?vg"]
  note v = ranked_props [OF a d1, of K, folded top_by_value_eq, unfolded l1]
  note q = ranked_props [OF refl refl refl d2, of K, folded top_by_quantity_eq, unfolded l2]
  have ten: "length (group_keys key df) = 3 \<longrightarrow> length (top_by_value lib 10 key df) = 3"
    using ranked_props(1) [OF a d1, of 10, folded top_by_value_eq, unfolded l1] by simp
  have exact: "(k, v) \<in> set ?vg \<and> exact_total lib (filter (\<lambda>r. key r = Some k) df)
        \<longrightarrow> v = Finite (\<Sum>r\<leftarrow>filter (\<lambda>r. key r = Some k) df. record_total r)"
    by (auto simp: value_groups_def exact_total_value)
  have "length (top_by_value lib K key df) \<le> K" "length (top_by_quantity lib K df) \<le> K"
    using v(1) q(1) by simp_all
  then show ?thesis
    using v q ten exact length_group_keys [of key df] set_group_keys [of key df] by blast
qed

theorem top_k_by_group_witness:
  "length (group_keys importer_name three_importers) = 3
   \<and> top_by_value exact_library 10 importer_name three_importers
       = [(''Bolt'', Finite 420), (''Acme'', Finite 100), (''Crane'', Finite 35)]
   \<and> top_importers exact_library three_importers
       = top_by_value exact_library 10 importer_name three_importers
   \<and> value_groups exact_library importer_name three_importers
       = [(''Acme'', Finite 100), (''Bolt'', Finite 420), (''Crane'', Finite 35)]
   \<and> exact_total exact_library (filter (\<lambda>r. importer_name r = Some ''Bolt'') three_importers)
   \<and> (\<Sum>r\<leftarrow>filter (\<lambda>r. importer_name r = Some ''Bolt'') three_importers. record_total r) = 420
   \<and> top_by_quantity exact_library 2 three_importers = [(''Valve'', Finite 2), (''Pump'', Finite 1)]
   \<and> top_products_by_unit exact_library ''PCS'' three_importers
       = Some [(''Valve'', Finite 2), (''Pump'', Finite 1)]"
proof -
  have k: "length (group_keys importer_name three_importers) = 3"
    by code_simp
  have e: "top_by_value exact_library 10 importer_name three_importers
       = [(''Bolt'', Finite 420), (''Acme'', Finite 100), (''Crane'', Finite 35)]"
    by code_simp
  have g: "value_groups exact_library importer_name three_importers
       = [(''Acme'', Finite 100), (''Bolt'', Finite 420), (''Crane'', Finite 35)]"
    by code_simp
  have x: "exact_total exact_library
      (filter (\<lambda>r. importer_name r = Some ''Bolt'') three_importers)"
    by code_simp
  have s: "(\<Sum>r\<leftarrow>filter (\<lambda>r. importer_name r = Some ''Bolt'') three_importers. record_total r)
      = 420"
    by code_simp
  have q: "top_by_quantity exact_library 2 three_importers
      = [(''Valve'', Finite 2), (''Pump'', Finite 1)]"
    by code_simp
  have u: "top_products_by_unit exact_library ''PCS'' three_importers
      = Some [(''Valve'', Finite 2), (''Pump'', Finite 1)]"
    by code_simp
  show ?thesis
    using top_k_by_group [of exact_library 10 importer_name three_importers "''Bolt''" "Finite 420"]
      k e g x s q u
    by (simp add: top_importers_def)
qed

section \<open>Properties of the time series\<close>

lemma month_bucket_le_iff:
  assumes "valid_month t1" and "valid_month t2"
  shows "month_bucket t1 \<le> month_bucket t2 \<longleftrightarrow> calendar_month t1 \<le> calendar_month t2"
  using assms unfolding valid_month_def month_bucket_def calendar_month_def less_eq_prod_def
  by auto

lemma month_bucket_less_iff:
  assumes "valid_month t1" and "valid_month t2"
  shows "month_bucket t1 < month_bucket t2 \<longleftrightarrow> calendar_month t1 < calendar_month t2"
  using assms unfolding valid_month_def month_bucket_def calendar_month_def less_prod_def
  by auto

lemma month_bucket_eq_iff:
  assumes "valid_month t1" and "valid_month t2"
  shows "month_bucket t1 = month_bucket t2 \<longleftrightarrow> calendar_month t1 = calendar_month t2"
  using assms unfolding valid_month_def month_bucket_def calendar_month_def
  by (auto; presburger)

lemma month_bucket_onto: "\<exists>t. valid_month t \<and> month_bucket t = b"
proof -
  let ?t = "\<lparr>year = b div 12, month = nat (b mod 12) + 1, day = 1, time_of_day = 0\<rparr>"
  have "valid_month ?t"
    by (simp add: valid_month_def)
  moreover have "month_bucket ?t = b"
    by (simp add: month_bucket_def)
  ultimately show ?thesis
    by blast
qed

lemma month_bins_iff:
  "m \<in> set (month_bins df) \<longleftrightarrow>
     (\<exists>r1 \<in> set df. \<exists>r2 \<in> set df. \<exists>m1 m2.
        bucket_of r1 = Some m1 \<and> bucket_of r2 = Some m2 \<and> m1 \<le> m \<and> m \<le> m2)"
proof (cases "List.map_filter bucket_of df = []")
  case True
  then have "{k. \<exists>r \<in> set df. bucket_of r = Some k} = {}"
    using set_map_filter_key [of bucket_of df] by simp
  then have "\<forall>r \<in> set df. bucket_of r = None"
    by (metis (mono_tags, lifting) empty_iff mem_Collect_eq not_Some_eq)
  with True show ?thesis
    by (auto simp: month_bins_def Let_def)
next
  case False
  let ?S = "set (List.map_filter bucket_of df)"
  have S: "?S = {k. \<exists>r \<in> set df. bucket_of r = Some k}"
    by (rule set_map_filter_key)
  have fin: "finite ?S" and ne: "?S \<noteq> {}"
    using False by auto
  have "m \<in> set (month_bins df) \<longleftrightarrow> Min ?S \<le> m \<and> m \<le> Max ?S"
    using False by (simp add: month_bins_def Let_def)
  also have "\<dots> \<longleftrightarrow> (\<exists>m1 \<in> ?S. m1 \<le> m) \<and> (\<exists>m2 \<in> ?S. m \<le> m2)"
    using fin ne by (simp add: Min_le_iff Max_ge_iff)
  also have "\<dots> \<longleftrightarrow> (\<exists>r1 \<in> set df. \<exists>r2 \<in> set df. \<exists>m1 m2.
        bucket_of r1 = Some m1 \<and> bucket_of r2 = Some m2 \<and> m1 \<le> m \<and> m \<le> m2)"
    unfolding S by blast
  finally show ?thesis .
qed

lemma sorted_month_bins: "sorted_wrt (<) (month_bins df)"
  by (simp add: month_bins_def Let_def strict_sorted_iff)

lemma fst_time_series: "map fst (time_series_df lib df) = month_bins df"
  by (simp add: time_series_df_def o_def)

lemma valid_datesD:
  assumes "valid_dates df" and "r \<in> set df" and "arrival_date r = Some t"
  shows "valid_month t"
  using assms by (auto simp: valid_dates_def list_all_iff)

lemma month_span_iff:
  assumes "valid_dates df" and "valid_month t"
  shows "month_bucket t \<in> set (month_bins df) \<longleftrightarrow>
     (\<exists>r1 \<in> set df. \<exists>r2 \<in> set df. \<exists>t1 t2.
        arrival_date r1 = Some t1 \<and> arrival_date r2 = Some t2
        \<and> calendar_month t1 \<le> calendar_month t \<and> calendar_month t \<le> calendar_month t2)"
proof
  assume "month_bucket t \<in> set (month_bins df)"
  then obtain r1 r2 m1 m2 where r: "r1 \<in> set df" "r2 \<in> set df"
    and b: "bucket_of r1 = Some m1" "bucket_of r2 = Some m2"
    and le: "m1 \<le> month_bucket t" "month_bucket t \<le> m2"
    unfolding month_bins_iff by blast
  from b obtain t1 t2 where t: "arrival_date r1 = Some t1" "arrival_date r2 = Some t2"
    and m: "m1 = month_bucket t1" "m2 = month_bucket t2"
    by (auto simp: bucket_of_def)
  have "valid_month t1" "valid_month t2"
    using valid_datesD [OF assms(1)] r t by blast+
  then have "calendar_month t1 \<le> calendar_month t \<and> calendar_month t \<le> calendar_month t2"
    using le m assms(2) by (simp add: month_bucket_le_iff)
  then show "\<exists>r1 \<in> set df. \<exists>r2 \<in> set df. \<exists>t1 t2.
        arrival_date r1 = Some t1 \<and> arrival_date r2 = Some t2
        \<and> calendar_month t1 \<le> calendar_month t \<and> calendar_month t \<le> calendar_month t2"
    using r t by blast
next
  assume "\<exists>r1 \<in> set df. \<exists>r2 \<in> set df. \<exists>t1 t2.
        arrival_date r1 = Some t1 \<and> arrival_date r2 = Some t2
        \<and> calendar_month t1 \<le> calendar_month t \<and> calendar_month t \<le> calendar_month t2"
  then obtain r1 r2 t1 t2 where r: "r1 \<in> set df" "r2 \<in> set df"
    and t: "arrival_date r1 = Some t1" "arrival_date r2 = Some t2"
    and le: "calendar_month t1 \<le> calendar_month t" "calendar_month t \<le> calendar_month t2"
    by blast
  have "valid_month t1" "valid_month t2"
    using valid_datesD [OF assms(1)] r t by blast+
  then have "month_bucket t1 \<le> month_bucket t" "month_bucket t \<le> month_bucket t2"
    using le assms(2) by (simp_all add: month_bucket_le_iff)
  moreover have "bucket_of r1 = Some (month_bucket t1)" "bucket_of r2 = Some (month_bucket t2)"
    using t by (simp_all add: bucket_of_def)
  ultimately show "month_bucket t \<in> set (month_bins df)"
    unfolding month_bins_iff using r by blast
qed

lemma rows_of_month:
  assumes "valid_dates df" and "valid_month t"
  shows "group_rows bucket_of (month_bucket t) df = filter (falls_in (calendar_month t)) df"
  unfolding group_rows_def
proof (rule filter_cong [OF refl])
  fix r assume r: "r \<in> set df"
  show "(bucket_of r = Some (month_bucket t)) = falls_in (calendar_month t) r"
  proof (cases "arrival_date r")
    case None
    then show ?thesis by (simp add: bucket_of_def falls_in_def)
  next
    case (Some t')
    then have "valid_month t'"
      using valid_datesD [OF assms(1) r] by simp
    then show ?thesis
      using Some assms(2) by (simp add: bucket_of_def falls_in_def month_bucket_eq_iff)
  qed
qed

text \<open>
  Claim C2, amended. The time series of line 97 has one bucket per calendar month, in
  chronological order without repetition: the order of the buckets is the order of
  year and month. A month has a bucket exactly when it lies between the months of two
  rows of the relation, so every month from the earliest to the latest row has one,
  also a month without rows. The value of the bucket of a month is the library's sum
  of the total values of the rows that fall in that month, and 0 for a month without
  rows.
\<close>

theorem time_series_zero_filled:
  "sorted_wrt (<) (map fst (time_series_df lib df))
   \<and> (valid_month t1 \<and> valid_month t2 \<longrightarrow>
        (month_bucket t1 < month_bucket t2 \<longleftrightarrow> calendar_month t1 < calendar_month t2)
        \<and> (month_bucket t1 = month_bucket t2 \<longleftrightarrow> calendar_month t1 = calendar_month t2))
   \<and> (\<forall>b \<in> set (time_series_df lib df). \<exists>t'. valid_month t' \<and> month_bucket t' = fst b)
   \<and> (valid_dates df \<and> valid_month t \<longrightarrow>
        (month_bucket t \<in> set (map fst (time_series_df lib df)) \<longleftrightarrow>
           (\<exists>r1 \<in> set df. \<exists>r2 \<in> set df. \<exists>t1 t2.
              arrival_date r1 = Some t1 \<and> arrival_date r2 = Some t2
              \<and> calendar_month t1 \<le> calendar_month t \<and> calendar_month t \<le> calendar_month t2))
        \<and> (\<forall>v. (month_bucket t, v) \<in> set (time_series_df lib df) \<longrightarrow>
              v = sum_of_cells (group_sum lib)
                    (List.map_filter total_value (filter (falls_in (calendar_month t)) df))))"
proof (intro conjI impI ballI allI)
  show "sorted_wrt (<) (map fst (time_series_df lib df))"
    by (simp add: fst_time_series sorted_month_bins)
next
  assume "valid_month t1 \<and> valid_month t2"
  then show "month_bucket t1 < month_bucket t2 \<longleftrightarrow> calendar_month t1 < calendar_month t2"
    and "month_bucket t1 = month_bucket t2 \<longleftrightarrow> calendar_month t1 = calendar_month t2"
    by (simp_all add: month_bucket_less_iff month_bucket_eq_iff)
next
  fix b show "\<exists>t'. valid_month t' \<and> month_bucket t' = fst b"
    by (rule month_bucket_onto)
next
  assume "valid_dates df \<and> valid_month t"
  then show "month_bucket t \<in> set (map fst (time_series_df lib df)) \<longleftrightarrow>
           (\<exists>r1 \<in> set df. \<exists>r2 \<in> set df. \<exists>t1 t2.
              arrival_date r1 = Some t1 \<and> arrival_date r2 = Some t2
              \<and> calendar_month t1 \<le> calendar_month t \<and> calendar_month t \<le> calendar_month t2)"
    by (simp only: fst_time_series month_span_iff)
next
  fix v
  assume valid: "valid_dates df \<and> valid_month t"
    and "(month_bucket t, v) \<in> set (time_series_df lib df)"
  then have "v = nansum (group_sum lib) (map total_value (group_rows bucket_of (month_bucket t) df))"
    by (auto simp: time_series_df_def)
  then show "v = sum_of_cells (group_sum lib)
      (List.map_filter total_value (filter (falls_in (calendar_month t)) df))"
    using valid by (simp add: nansum_cells rows_of_month)
qed

theorem time_series_zero_filled_witness:
  "time_series_df exact_library (assign_total_value bucket_relation)
     = [(month_bucket (ts 2024 1 5), Finite 150), (month_bucket (ts 2024 2 1), Finite 35)]
   \<and> month_bucket (ts 2024 1 28) = month_bucket (ts 2024 1 5)
   \<and> valid_dates (assign_total_value gap_relation) \<and> valid_month (ts 2024 2 1)
   \<and> valid_month (ts 2023 12 5) \<and> month_bucket (ts 2023 12 5) < month_bucket (ts 2024 2 1)
   \<and> time_series_df exact_library (assign_total_value gap_relation)
     = [(month_bucket (ts 2024 1 5), Finite 100), (month_bucket (ts 2024 2 1), Finite 0),
        (month_bucket (ts 2024 3 9), Finite 50)]
   \<and> sum_of_cells (group_sum exact_library)
        (List.map_filter total_value
           (filter (falls_in (calendar_month (ts 2024 2 1))) (assign_total_value gap_relation)))
     = Finite 0"
proof -
  have a: "time_series_df exact_library (assign_total_value bucket_relation)
     = [(month_bucket (ts 2024 1 5), Finite 150), (month_bucket (ts 2024 2 1), Finite 35)]"
    by code_simp
  have b: "month_bucket (ts 2024 1 28) = month_bucket (ts 2024 1 5)"
    by code_simp
  have c: "time_series_df exact_library (assign_total_value gap_relation)
     = [(month_bucket (ts 2024 1 5), Finite 100), (month_bucket (ts 2024 2 1), Finite 0),
        (month_bucket (ts 2024 3 9), Finite 50)]"
    by code_simp
  have d: "valid_dates (assign_total_value gap_relation)" "valid_month (ts 2024 2 1)"
    "valid_month (ts 2023 12 5)" "month_bucket (ts 2023 12 5) < month_bucket (ts 2024 2 1)"
    by code_simp+
  have e: "sum_of_cells (group_sum exact_library)
        (List.map_filter total_value
           (filter (falls_in (calendar_month (ts 2024 2 1))) (assign_total_value gap_relation)))
     = Finite 0"
    by code_simp
  show ?thesis
    using time_series_zero_filled [of exact_library "assign_total_value gap_relation"
        "ts 2023 12 5" "ts 2024 2 1" "ts 2024 2 1"] a b c d e
    by simp
qed

text \<open>
  Claim C2, as stated, fails: for rows in January and March only, the grouper of line
  97 emits a bucket for February too, with value 0, although no row falls in February.
\<close>

theorem time_series_gap_counterexample:
  "time_series_df exact_library (assign_total_value gap_relation)
     = [(month_bucket (ts 2024 1 5), Finite 100), (month_bucket (ts 2024 2 1), Finite 0),
        (month_bucket (ts 2024 3 9), Finite 50)]
   \<and> filter (falls_in (2024, 2)) (assign_total_value gap_relation) = []"
  by code_simp

section \<open>The grand total\<close>

lemma sum_list_absent:
  fixes c :: amount
  shows "k0 \<notin> set ks \<Longrightarrow> (\<Sum>k\<leftarrow>ks. if k = k0 then c else 0) = 0"
  by (induction ks) auto

lemma sum_list_delta:
  fixes c :: amount
  assumes "distinct ks" "k0 \<in> set ks"
  shows "(\<Sum>k\<leftarrow>ks. if k = k0 then c else 0) = c"
  using assms by (induction ks) (auto simp: sum_list_absent)

lemma sum_over_groups:
  fixes f :: "'r \<Rightarrow> amount"
  assumes "distinct ks" and "\<forall>r \<in> set rs. \<forall>k. key r = Some k \<longrightarrow> k \<in> set ks"
  shows "(\<Sum>k\<leftarrow>ks. \<Sum>r\<leftarrow>filter (\<lambda>r. key r = Some k) rs. f r)
      = (\<Sum>r\<leftarrow>filter (\<lambda>r. key r \<noteq> None) rs. f r)"
  using assms(2)
proof (induction rs)
  case Nil
  then show ?case by simp
next
  case (Cons r rs)
  then have IH: "(\<Sum>k\<leftarrow>ks. \<Sum>r\<leftarrow>filter (\<lambda>r. key r = Some k) rs. f r)
      = (\<Sum>r\<leftarrow>filter (\<lambda>r. key r \<noteq> None) rs. f r)"
    by simp
  show ?case
  proof (cases "key r")
    case None
    then show ?thesis using IH by simp
  next
    case (Some k0)
    with Cons.prems have k0: "k0 \<in> set ks" by simp
    have "(\<Sum>k\<leftarrow>ks. \<Sum>x\<leftarrow>filter (\<lambda>r. key r = Some k) (r # rs). f x)
        = (\<Sum>k\<leftarrow>ks. (if k = k0 then f r else 0) + (\<Sum>x\<leftarrow>filter (\<lambda>r. key r = Some k) rs. f x))"
      using Some by (intro arg_cong [where f = sum_list] map_cong) auto
    also have "\<dots> = f r + (\<Sum>k\<leftarrow>ks. \<Sum>x\<leftarrow>filter (\<lambda>r. key r = Some k) rs. f x)"
      by (simp add: sum_list_addf sum_list_delta [OF assms(1) k0])
    finally show ?thesis
      using Some IH by simp
  qed
qed

lemma exact_entries_sum:
  fixes g :: "'k \<Rightarrow> amount"
  assumes "list_all (\<lambda>b. snd b = Finite (g (fst b))) xs"
  shows "(\<Sum>b\<leftarrow>xs. number_of (snd b)) = (\<Sum>k\<leftarrow>map fst xs. g k)"
  using assms by (induction xs) auto

lemma assign_total_value_rows:
  assumes "v \<in> set (assign_total_value df)"
  shows "\<exists>r \<in> set df. arrival_date v = arrival_date r \<and> importer_country v = importer_country r"
  using assms by (auto simp: assign_total_value_eq set_total_value_def)

lemma set_eq_filter: "set (eq_filter col sel df) \<subseteq> set df"
  by (auto simp: eq_filter_def)

lemma set_importer_filter: "set (importer_filter sel df) \<subseteq> set df"
  by (auto simp: importer_filter_def)

lemma filtered_df_in_range:
  assumes "r \<in> set (filtered_df spec R)"
  shows "in_date_range (start_date spec) (end_date spec) r"
proof -
  have "r \<in> set (date_filter (start_date spec) (end_date spec) R)"
    using assms set_eq_filter set_importer_filter unfolding filtered_df_def by blast
  then show ?thesis
    by (simp add: date_filter_def)
qed

lemma valued_df_bucket:
  assumes "v \<in> set (valued_df spec R)"
  shows "bucket_of v \<noteq> None"
proof -
  obtain r where "r \<in> set (filtered_df spec R)" "arrival_date v = arrival_date r"
    using assign_total_value_rows assms unfolding valued_df_def by blast
  then show ?thesis
    using filtered_df_in_range [of r spec R]
    by (auto simp: in_date_range_def bucket_of_def split: option.splits)
qed

lemma sum_month_bins:
  fixes f :: "valued \<Rightarrow> amount"
  shows "(\<Sum>m\<leftarrow>month_bins df. \<Sum>r\<leftarrow>filter (\<lambda>r. bucket_of r = Some m) df. f r)
     = (\<Sum>r\<leftarrow>filter (\<lambda>r. bucket_of r \<noteq> None) df. f r)"
proof (rule sum_over_groups)
  show "distinct (month_bins df)"
    using sorted_month_bins [of df] by (simp add: strict_sorted_iff)
  show "\<forall>r \<in> set df. \<forall>k. bucket_of r = Some k \<longrightarrow> k \<in> set (month_bins df)"
    unfolding month_bins_iff by blast
qed

lemma sum_country_keys:
  fixes f :: "valued \<Rightarrow> amount"
  shows "(\<Sum>k\<leftarrow>group_keys importer_country df. \<Sum>r\<leftarrow>filter (\<lambda>r. importer_country r = Some k) df. f r)
     = (\<Sum>r\<leftarrow>filter (\<lambda>r. importer_country r \<noteq> None) df. f r)"
  by (rule sum_over_groups) (auto simp: distinct_group_keys set_group_keys)

lemma total_value_replace_pieces:
  "map total_value (replace_pieces df) = map total_value df"
  by (simp add: replace_pieces_def o_def)

lemma kpi_replace_pieces:
  "total_value_kpi (compute_metrics lib (replace_pieces df))
     = total_value_kpi (compute_metrics lib df)"
  by (simp add: compute_metrics_def total_value_replace_pieces)

text \<open>
  Claim C10, amended. For every filtered relation on which the sums are exact, the
  total value KPI of line 137 equals the sum of the monthly buckets of the time
  series; the sum of the per-country totals equals the total value of the rows that
  have an importer country, which is the KPI when every row has one.
\<close>

theorem grand_total_preserved:
  "(series_exact lib (valued_df spec R) \<and> kpi_exact lib (valued_df spec R) \<longrightarrow>
      (\<Sum>b\<leftarrow>time_series_df lib (valued_df spec R). number_of (snd b))
        = number_of (total_value_kpi (compute_metrics lib (canonical_df spec R))))
   \<and> (geo_exact lib (valued_df spec R) \<longrightarrow>
      (\<Sum>g\<leftarrow>geo_df lib (valued_df spec R). number_of (snd g))
        = (\<Sum>r\<leftarrow>filter (\<lambda>r. importer_country r \<noteq> None) (valued_df spec R).
             coalesce (total_value r) 0))
   \<and> (geo_exact lib (valued_df spec R) \<and> kpi_exact lib (valued_df spec R)
       \<and> (\<forall>r \<in> set (valued_df spec R). importer_country r \<noteq> None) \<longrightarrow>
      (\<Sum>g\<leftarrow>geo_df lib (valued_df spec R). number_of (snd g))
        = number_of (total_value_kpi (compute_metrics lib (canonical_df spec R))))"
proof -
  let ?df = "valued_df spec R"
  let ?f = "\<lambda>r :: valued. coalesce (total_value r) 0"
  have kpi: "kpi_exact lib ?df \<Longrightarrow>
      number_of (total_value_kpi (compute_metrics lib (canonical_df spec R))) = (\<Sum>r\<leftarrow>?df. ?f r)"
    by (simp add: kpi_exact_def canonical_df_def kpi_replace_pieces)
  have "filter (\<lambda>r. bucket_of r \<noteq> None) ?df = ?df"
    using valued_df_bucket by (simp add: filter_id_conv)
  then have series: "series_exact lib ?df \<Longrightarrow>
      (\<Sum>b\<leftarrow>time_series_df lib ?df. number_of (snd b)) = (\<Sum>r\<leftarrow>?df. ?f r)"
    using sum_month_bins [of ?f ?df]
    by (simp add: series_exact_def exact_entries_sum fst_time_series)
  have "map fst (geo_df lib ?df) = group_keys importer_country ?df"
    by (simp add: geo_df_def groupby_sum_def o_def)
  then have geo: "geo_exact lib ?df \<Longrightarrow>
      (\<Sum>g\<leftarrow>geo_df lib ?df. number_of (snd g))
        = (\<Sum>r\<leftarrow>filter (\<lambda>r. importer_country r \<noteq> None) ?df. ?f r)"
    using sum_country_keys [of ?f ?df]
    by (simp add: geo_exact_def exact_entries_sum)
  have "(\<forall>r \<in> set ?df. importer_country r \<noteq> None)
        \<Longrightarrow> filter (\<lambda>r. importer_country r \<noteq> None) ?df = ?df"
    by (simp add: filter_id_conv)
  with kpi series geo show ?thesis
    by auto
qed

theorem grand_total_preserved_witness:
  "series_exact exact_library (valued_df (all_of_2024 []) bucket_relation)
   \<and> geo_exact exact_library (valued_df (all_of_2024 []) bucket_relation)
   \<and> kpi_exact exact_library (valued_df (all_of_2024 []) bucket_relation)
   \<and> total_value_kpi (compute_metrics exact_library (canonical_df (all_of_2024 []) bucket_relation))
       = Finite 185
   \<and> map snd (time_series_df exact_library (valued_df (all_of_2024 []) bucket_relation))
       = [Finite 150, Finite 35]
   \<and> geo_df exact_library (valued_df (all_of_2024 []) bucket_relation)
       = [(''India'', Finite 150), (''Kenya'', Finite 35)]
   \<and> map importer_country (valued_df (all_of_2024 []) bucket_relation)
       = [Some ''India'', Some ''India'', Some ''Kenya'']"
proof -
  let ?df = "valued_df (all_of_2024 []) bucket_relation"
  have x: "series_exact exact_library ?df" "geo_exact exact_library ?df"
    "kpi_exact exact_library ?df"
    by code_simp+
  have a: "total_value_kpi (compute_metrics exact_library
      (canonical_df (all_of_2024 []) bucket_relation)) = Finite 185"
    by code_simp
  have b: "map snd (time_series_df exact_library ?df) = [Finite 150, Finite 35]"
    by code_simp
  have c: "geo_df exact_library ?df = [(''India'', Finite 150), (''Kenya'', Finite 35)]"
    by code_simp
  have d: "map importer_country ?df = [Some ''India'', Some ''India'', Some ''Kenya'']"
    by code_simp
  show ?thesis
    using grand_total_preserved [of exact_library "all_of_2024 []" bucket_relation] x a b c d
    by simp
qed

text \<open>
  Claim C10, as stated, fails, also where every sum is exact: a row without importer
  country belongs to no group of line 105, so the per-country totals add up to 2 where
  the KPI is 7.
\<close>

theorem geo_total_counterexample:
  "total_value_kpi (compute_metrics exact_library
      (canonical_df (all_of_2024 []) no_country_relation)) = Finite 7
   \<and> geo_df exact_library (valued_df (all_of_2024 []) no_country_relation)
       = [(''India'', Finite 2)]
   \<and> geo_exact exact_library (valued_df (all_of_2024 []) no_country_relation)
   \<and> kpi_exact exact_library (valued_df (all_of_2024 []) no_country_relation)"
  by code_simp

section \<open>Properties of the trend\<close>

lemma shift_per_product:
  "map (\<lambda>x. (fst (fst (fst x)), snd (fst x), snd x))
       (filter (\<lambda>x. snd (fst (fst x)) = p)
          (zip cells (group_shift seen (map (\<lambda>((m, q), v). (q, v)) cells))))
   = map2 (\<lambda>c prev. (fst c, snd c, prev))
       (map (\<lambda>c. (fst (fst c), snd c)) (filter (\<lambda>c. snd (fst c) = p) cells))
       ((case seen p of None \<Rightarrow> NaN | Some prev \<Rightarrow> prev)
        # map snd (map (\<lambda>c. (fst (fst c), snd c)) (filter (\<lambda>c. snd (fst c) = p) cells)))"
proof (induction cells arbitrary: seen)
  case Nil
  then show ?case by simp
next
  case (Cons c cells)
  obtain m q v where c: "c = ((m, q), v)"
    by (metis surj_pair)
  show ?case
  proof (cases "q = p")
    case True
    note IH = Cons.IH [of "seen(p \<mapsto> v)"]
    show ?thesis
      by (simp add: c True IH)
  next
    case False
    note IH = Cons.IH [of "seen(q \<mapsto> v)"]
    show ?thesis
      using False by (simp add: c IH)
  qed
qed

lemma trend_rows_eq:
  "trend_rows lib df =
     map (\<lambda>x. trend_row_of (snd (fst (fst x))) (fst (fst (fst x)), snd (fst x), snd x))
       (zip (trend_cells lib df)
          (group_shift Map.empty (map (\<lambda>((m, q), v). (q, v)) (trend_cells lib df))))"
  by (simp add: trend_rows_def Let_def trend_row_of_def split_def)

lemma trend_rows_of_product:
  "filter (\<lambda>r. product r = p) (trend_rows lib df)
     = map (trend_row_of p) (with_previous (product_series lib p df))"
proof -
  let ?z = "zip (trend_cells lib df)
      (group_shift Map.empty (map (\<lambda>((m, q), v). (q, v)) (trend_cells lib df)))"
  have "filter (\<lambda>r. product r = p) (trend_rows lib df)
      = map (\<lambda>x. trend_row_of (snd (fst (fst x))) (fst (fst (fst x)), snd (fst x), snd x))
          (filter (\<lambda>x. snd (fst (fst x)) = p) ?z)"
    by (simp add: trend_rows_eq filter_map o_def trend_row_of_def)
  also have "\<dots> = map (trend_row_of p)
      (map (\<lambda>x. (fst (fst (fst x)), snd (fst x), snd x)) (filter (\<lambda>x. snd (fst (fst x)) = p) ?z))"
    by (simp add: o_def cong: map_cong)
  also have "\<dots> = map (trend_row_of p) (with_previous (product_series lib p df))"
    unfolding shift_per_product by (simp add: with_previous_def product_series_def)
  finally show ?thesis .
qed

lemma in_range_Finite: "\<bar>x\<bar> < overflow_threshold \<Longrightarrow> in_range x = Finite x"
  by (simp add: in_range_def)

lemma growth_rate_finite:
  assumes "b \<noteq> 0" and "\<bar>a - b\<bar> < overflow_threshold"
    and "\<bar>(a - b) / b\<bar> < overflow_threshold" and "\<bar>(a - b) / b * 100\<bar> < overflow_threshold"
  shows "is_finite (growth_rate_of (Finite a) (Finite b))
    \<and> number_of (growth_rate_of (Finite a) (Finite b)) = (a - b) / b * 100"
proof (cases "a = b")
  case True
  then show ?thesis
    using assms(1)
    by (simp add: growth_rate_of_def fsub_def fadd_def fdiv_def fmul_def signed_zero_def)
next
  case False
  note r1 = in_range_Finite [OF assms(2)]
  note r2 = in_range_Finite [OF assms(3)]
  note r3 = in_range_Finite [OF assms(4)]
  have "in_range (a + - b) = Finite (a - b)"
    using r1 by simp
  then have s1: "fsub (Finite a) (Finite b) = Finite (a - b)"
    using assms(1) False by (simp add: fsub_def fadd_def)
  have s2: "fdiv (Finite (a - b)) (Finite b) = Finite ((a - b) / b)"
    using assms(1) False r2 by (simp add: fdiv_def)
  have s3: "fmul (Finite ((a - b) / b)) (Finite 100) = Finite ((a - b) / b * 100)"
    using assms(1) False r3 by (simp add: fmul_def)
  show ?thesis
    by (simp add: growth_rate_of_def s1 s2 s3)
qed

lemma growth_rate_example: "growth_rate_of (Finite 150) (Finite 100) = Finite 50"
  by (simp add: growth_rate_of_def fsub_def fadd_def fdiv_def fmul_def in_range_def
      overflow_threshold_def)

lemma product_series_months:
  "map fst (product_series lib p df) = map fst (filter (\<lambda>k. snd k = p) (group_keys cell_of df))"
  by (simp add: product_series_def trend_cells_def groupby_sum_def filter_map o_def)

lemma sorted_product_series: "sorted_wrt (<) (map fst (product_series lib p df))"
proof -
  have "sorted_wrt (<) (filter (\<lambda>k. snd k = p) (group_keys cell_of df))"
    using sorted_group_keys by (rule sorted_wrt_filter)
  then have "sorted_wrt (\<lambda>a b. fst a < fst b) (filter (\<lambda>k. snd k = p) (group_keys cell_of df))"
    by (rule sorted_wrt_mono_rel [rotated]) (auto simp: less_prod_def)
  then show ?thesis
    by (simp add: product_series_months sorted_wrt_map)
qed

lemma cell_of_eq:
  "cell_of r = Some (m, p) \<longleftrightarrow> bucket_of r = Some m \<and> product_details r = Some p"
  by (auto simp: cell_of_def split: option.splits)

lemma product_series_iff:
  "(m, v) \<in> set (product_series lib p df) \<longleftrightarrow>
     (\<exists>r \<in> set df. bucket_of r = Some m \<and> product_details r = Some p)
     \<and> v = sum_of_cells (group_sum lib)
             (List.map_filter total_value
                (filter (\<lambda>r. bucket_of r = Some m \<and> product_details r = Some p) df))"
  by (auto simp: product_series_def trend_cells_def groupby_sum_def set_group_keys
      nansum_cells group_rows_def cell_of_eq image_iff)

lemma bucket_of_month:
  assumes "valid_dates df" and "valid_month t" and "r \<in> set df"
  shows "bucket_of r = Some (month_bucket t) \<longleftrightarrow> falls_in (calendar_month t) r"
proof (cases "arrival_date r")
  case None
  then show ?thesis by (simp add: bucket_of_def falls_in_def)
next
  case (Some t')
  then have "valid_month t'"
    using valid_datesD [OF assms(1,3)] by simp
  then show ?thesis
    using Some assms(2) by (simp add: bucket_of_def falls_in_def month_bucket_eq_iff)
qed

lemma product_series_month_iff:
  assumes "valid_dates df" and "valid_month t"
  shows "(month_bucket t, v) \<in> set (product_series lib p df) \<longleftrightarrow>
     (\<exists>r \<in> set df. falls_in (calendar_month t) r \<and> product_details r = Some p)
     \<and> v = sum_of_cells (group_sum lib)
             (List.map_filter total_value
                (filter (\<lambda>r. falls_in (calendar_month t) r \<and> product_details r = Some p) df))"
proof -
  have "filter (\<lambda>r. bucket_of r = Some (month_bucket t) \<and> product_details r = Some p) df
      = filter (\<lambda>r. falls_in (calendar_month t) r \<and> product_details r = Some p) df"
    by (rule filter_cong [OF refl]) (simp add: bucket_of_month [OF assms])
  moreover have "(\<exists>r \<in> set df. bucket_of r = Some (month_bucket t) \<and> product_details r = Some p)
      \<longleftrightarrow> (\<exists>r \<in> set df. falls_in (calendar_month t) r \<and> product_details r = Some p)"
    using bucket_of_month [OF assms] by blast
  ultimately show ?thesis
    by (simp add: product_series_iff)
qed

lemma trend_df_of_product:
  "filter (\<lambda>r. product r = p) (trend_df lib df)
     = filter (\<lambda>r. \<not> has_na r) (map (trend_row_of p) (with_previous (product_series lib p df)))"
proof -
  have "filter (\<lambda>r. product r = p) (trend_df lib df)
      = filter (\<lambda>r. \<not> has_na r) (filter (\<lambda>r. product r = p) (trend_rows lib df))"
    by (simp add: trend_df_def conj_commute)
  then show ?thesis
    by (simp only: trend_rows_of_product)
qed

text \<open>
  Claim C3. For every product, the rows of the trend frame after line 153 are the
  monthly totals of the product, each paired with the total just before it in the
  product's own series and with the growth rate computed from the two. The series
  holds exactly the calendar months in which the product has a row, in chronological
  order of year and month, so the total before is that of the nearest earlier month
  with a row of the product. For a previous total other than 0 the growth rate is the
  number \<open>(current - previous) / previous * 100\<close>, as long as it is in the range of
  float64. Line 154 drops every row without a previous total. A product with the
  monthly totals 100 and 150 has exactly one row in the result, for the second month,
  with a growth rate of 50.
\<close>

theorem growth_from_previous_bucket:
  "filter (\<lambda>r. product r = p) (trend_rows lib df)
     = map (trend_row_of p) (with_previous (product_series lib p df))
   \<and> sorted_wrt (<) (map fst (product_series lib p df))
   \<and> (valid_month t1 \<and> valid_month t2 \<longrightarrow>
        (month_bucket t1 < month_bucket t2 \<longleftrightarrow> calendar_month t1 < calendar_month t2))
   \<and> (valid_dates df \<and> valid_month t \<longrightarrow>
        ((month_bucket t, v) \<in> set (product_series lib p df) \<longleftrightarrow>
           (\<exists>r \<in> set df. falls_in (calendar_month t) r \<and> product_details r = Some p)
           \<and> v = sum_of_cells (group_sum lib)
                   (List.map_filter total_value
                      (filter (\<lambda>r. falls_in (calendar_month t) r \<and> product_details r = Some p) df))))
   \<and> (\<forall>c \<in> set (product_series lib p df). \<exists>t'. valid_month t' \<and> month_bucket t' = fst c)
   \<and> (b \<noteq> 0 \<and> \<bar>a - b\<bar> < overflow_threshold \<and> \<bar>(a - b) / b\<bar> < overflow_threshold
        \<and> \<bar>(a - b) / b * 100\<bar> < overflow_threshold \<longrightarrow>
        is_finite (growth_rate_of (Finite a) (Finite b))
        \<and> number_of (growth_rate_of (Finite a) (Finite b)) = (a - b) / b * 100)
   \<and> trend_df lib df = filter (\<lambda>r. \<not> has_na r) (trend_rows lib df)
   \<and> (\<forall>r \<in> set (trend_rows lib df). prev_total_value r = NaN \<longrightarrow> r \<notin> set (trend_df lib df))
   \<and> (product_series lib p df = [(m1, Finite 100), (m2, Finite 150)] \<longrightarrow>
        filter (\<lambda>r. product r = p) (trend_df lib df)
          = [\<lparr>bucket = m2, product = p, total = Finite 150, prev_total_value = Finite 100,
              growth_rate = Finite 50\<rparr>])"
proof (intro conjI impI ballI)
  show "filter (\<lambda>r. product r = p) (trend_rows lib df)
     = map (trend_row_of p) (with_previous (product_series lib p df))"
    by (rule trend_rows_of_product)
  show "sorted_wrt (<) (map fst (product_series lib p df))"
    by (rule sorted_product_series)
  show "trend_df lib df = filter (\<lambda>r. \<not> has_na r) (trend_rows lib df)"
    by (simp add: trend_df_def)
next
  assume "valid_month t1 \<and> valid_month t2"
  then show "month_bucket t1 < month_bucket t2 \<longleftrightarrow> calendar_month t1 < calendar_month t2"
    by (simp add: month_bucket_less_iff)
next
  assume "valid_dates df \<and> valid_month t"
  then show "(month_bucket t, v) \<in> set (product_series lib p df) \<longleftrightarrow>
           (\<exists>r \<in> set df. falls_in (calendar_month t) r \<and> product_details r = Some p)
           \<and> v = sum_of_cells (group_sum lib)
                   (List.map_filter total_value
                      (filter (\<lambda>r. falls_in (calendar_month t) r \<and> product_details r = Some p) df))"
    by (simp add: product_series_month_iff)
next
  fix c show "\<exists>t'. valid_month t' \<and> month_bucket t' = fst c"
    by (rule month_bucket_onto)
next
  assume h: "b \<noteq> 0 \<and> \<bar>a - b\<bar> < overflow_threshold \<and> \<bar>(a - b) / b\<bar> < overflow_threshold
        \<and> \<bar>(a - b) / b * 100\<bar> < overflow_threshold"
  then show "is_finite (growth_rate_of (Finite a) (Finite b))"
    and "number_of (growth_rate_of (Finite a) (Finite b)) = (a - b) / b * 100"
    using growth_rate_finite [of b a] by simp_all
next
  fix r assume "r \<in> set (trend_rows lib df)" "prev_total_value r = NaN"
  then show "r \<notin> set (trend_df lib df)"
    by (simp add: trend_df_def has_na_def)
next
  assume "product_series lib p df = [(m1, Finite 100), (m2, Finite 150)]"
  then show "filter (\<lambda>r. product r = p) (trend_df lib df)
          = [\<lparr>bucket = m2, product = p, total = Finite 150, prev_total_value = Finite 100,
              growth_rate = Finite 50\<rparr>]"
    by (simp add: trend_df_of_product with_previous_def trend_row_of_def has_na_def
        growth_rate_example)
qed

theorem growth_from_previous_bucket_witness:
  "valid_month (ts 2023 12 5) \<and> valid_month (ts 2024 1 9)
   \<and> calendar_month (ts 2023 12 5) < calendar_month (ts 2024 1 9)
   \<and> month_bucket (ts 2023 12 5) < month_bucket (ts 2024 1 9)
   \<and> valid_dates (assign_total_value growth_relation) \<and> valid_month (ts 2024 2 1)
   \<and> product_series exact_library ''Valve'' (assign_total_value growth_relation)
     = [(month_bucket (ts 2024 1 5), Finite 100), (month_bucket (ts 2024 2 1), Finite 150)]
   \<and> trend_df exact_library (assign_total_value growth_relation)
     = [\<lparr>bucket = month_bucket (ts 2024 2 1), product = ''Valve'', total = Finite 150,
         prev_total_value = Finite 100, growth_rate = Finite 50\<rparr>]
   \<and> (100 :: amount) \<noteq> 0 \<and> \<bar>150 - 100 :: amount\<bar> < overflow_threshold
   \<and> \<bar>(150 - 100) / 100 :: amount\<bar> < overflow_threshold
   \<and> \<bar>(150 - 100) / 100 * 100 :: amount\<bar> < overflow_threshold
   \<and> growth_rate_of (Finite 150) (Finite 100) = Finite 50
   \<and> trend_df exact_library (assign_total_value year_end_relation)
     = [\<lparr>bucket = month_bucket (ts 2024 1 9), product = ''Valve'', total = Finite 150,
         prev_total_value = Finite 100, growth_rate = Finite 50\<rparr>]
   \<and> trend_df exact_library (assign_total_value gap_relation)
     = [\<lparr>bucket = month_bucket (ts 2024 3 9), product = ''Valve'', total = Finite 50,
         prev_total_value = Finite 100, growth_rate = Finite (- 50)\<rparr>]"
proof -
  have m: "valid_month (ts 2023 12 5)" "valid_month (ts 2024 1 9)"
    "calendar_month (ts 2023 12 5) < calendar_month (ts 2024 1 9)"
    "month_bucket (ts 2023 12 5) < month_bucket (ts 2024 1 9)"
    "valid_dates (assign_total_value growth_relation)" "valid_month (ts 2024 2 1)"
    by code_simp+
  have a: "product_series exact_library ''Valve'' (assign_total_value growth_relation)
     = [(month_bucket (ts 2024 1 5), Finite 100), (month_bucket (ts 2024 2 1), Finite 150)]"
    by code_simp
  have b: "trend_df exact_library (assign_total_value growth_relation)
     = [\<lparr>bucket = month_bucket (ts 2024 2 1), product = ''Valve'', total = Finite 150,
         prev_total_value = Finite 100, growth_rate = Finite 50\<rparr>]"
    by code_simp
  have r: "(100 :: amount) \<noteq> 0" "\<bar>150 - 100 :: amount\<bar> < overflow_threshold"
    "\<bar>(150 - 100) / 100 :: amount\<bar> < overflow_threshold"
    "\<bar>(150 - 100) / 100 * 100 :: amount\<bar> < overflow_threshold"
    by (simp_all add: overflow_threshold_def)
  have g: "growth_rate_of (Finite 150) (Finite 100) = Finite 50"
    by code_simp
  have y: "trend_df exact_library (assign_total_value year_end_relation)
     = [\<lparr>bucket = month_bucket (ts 2024 1 9), product = ''Valve'', total = Finite 150,
         prev_total_value = Finite 100, growth_rate = Finite 50\<rparr>]"
    by code_simp
  have z: "trend_df exact_library (assign_total_value gap_relation)
     = [\<lparr>bucket = month_bucket (ts 2024 3 9), product = ''Valve'', total = Finite 50,
         prev_total_value = Finite 100, growth_rate = Finite (- 50)\<rparr>]"
    by code_simp
  show ?thesis
    using growth_from_previous_bucket [of "''Valve''" exact_library
        "assign_total_value growth_relation" "ts 2023 12 5" "ts 2024 1 9" "ts 2024 2 1"
        "Finite 150" 100 150 "month_bucket (ts 2024 1 5)" "month_bucket (ts 2024 2 1)"]
      m a b r g y z
    by simp
qed

section \<open>A previous total of zero\<close>

lemma not_finite_fadd:
  assumes "\<not> is_finite x \<or> \<not> is_finite y"
  shows "\<not> is_finite (fadd x y)"
  using assms by (cases x; cases y) (auto simp: fadd_def)

lemma not_finite_foldl_fadd:
  assumes "\<not> is_finite a \<or> (\<exists>v \<in> set vs. \<not> is_finite v)"
  shows "\<not> is_finite (foldl fadd a vs)"
  using assms
proof (induction vs arbitrary: a)
  case Nil
  then show ?case by simp
next
  case (Cons v vs)
  have "\<not> is_finite (fadd a v) \<or> (\<exists>w \<in> set vs. \<not> is_finite w)"
    using Cons.prems not_finite_fadd [of a v] by auto
  then show ?case
    using Cons.IH [of "fadd a v"] by simp
qed

lemma not_finite_fdiv:
  assumes "\<not> is_finite x"
  shows "\<not> is_finite (fdiv x y)"
  using assms by (cases x; cases y) (auto simp: fdiv_def signed_inf_def)

lemma fmean_not_finite:
  assumes "v \<in> set col" and "v = PosInf \<or> v = NegInf"
  shows "\<not> is_finite (fmean col)"
proof -
  let ?vs = "filter (\<lambda>v. v \<noteq> NaN) col"
  have v: "v \<in> set ?vs" "\<not> is_finite v"
    using assms by auto
  then have ne: "?vs \<noteq> []"
    by (metis empty_iff list.set(1))
  have "\<not> is_finite (foldl fadd (Finite 0) ?vs)"
    using v not_finite_foldl_fadd [of "Finite 0" ?vs] by blast
  then show ?thesis
    using ne not_finite_fdiv [of "foldl fadd (Finite 0) ?vs"]
    by (simp add: fmean_def Let_def)
qed

lemma trend_rows_growth:
  assumes "r \<in> set (trend_rows lib df)"
  shows "growth_rate r = growth_rate_of (total r) (prev_total_value r)"
  using assms by (auto simp: trend_rows_eq trend_row_of_def)

lemma growth_zero_pos:
  "growth_rate_of current (Finite 0) =
     (if current = NaN \<or> current = Finite 0 \<or> current = NegZero then NaN
      else if current = PosInf \<or> 0 < number_of current then PosInf else NegInf)"
proof (cases current)
  case (Finite a)
  then show ?thesis
    by (simp add: growth_rate_of_def fsub_def fadd_def fdiv_def fmul_def signed_inf_def)
qed (simp_all add: growth_rate_of_def fsub_def fadd_def fdiv_def fmul_def signed_inf_def)

lemma growth_zero_neg:
  "growth_rate_of current NegZero =
     (if current = NaN \<or> current = Finite 0 \<or> current = NegZero then NaN
      else if current = PosInf \<or> 0 < number_of current then NegInf else PosInf)"
proof (cases current)
  case (Finite a)
  then show ?thesis
    by (simp add: growth_rate_of_def fsub_def fadd_def fdiv_def fmul_def signed_inf_def)
qed (simp_all add: growth_rate_of_def fsub_def fadd_def fdiv_def fmul_def signed_inf_def)

lemma growth_rate_zero_previous:
  assumes "previous = Finite 0 \<or> previous = NegZero"
  shows "growth_rate_of current previous =
     (if current = NaN \<or> current = Finite 0 \<or> current = NegZero then NaN
      else if (current = PosInf \<or> 0 < number_of current) = (previous = Finite 0)
      then PosInf else NegInf)"
proof (cases "previous = Finite 0")
  case True
  then show ?thesis
    using growth_zero_pos [of current] by simp
next
  case False
  then have "previous = NegZero"
    using assms by simp
  then show ?thesis
    using growth_zero_neg [of current] by simp
qed

lemma groupby_mean_entry:
  "(p, g) \<in> set (groupby_mean rs) \<longleftrightarrow>
     (\<exists>r \<in> set rs. product r = p)
     \<and> g = fmean (map growth_rate (filter (\<lambda>r. product r = p) rs))"
  by (auto simp: groupby_mean_def group_rows_def set_group_keys)

lemma hd_sort_key:
  fixes f :: "'a \<Rightarrow> 'b :: linorder"
  assumes "z \<in> set zs"
  shows "sort_key f zs \<noteq> [] \<and> hd (sort_key f zs) \<in> set zs \<and> f (hd (sort_key f zs)) \<le> f z"
proof -
  let ?ys = "sort_key f zs"
  have s: "set ?ys = set zs" and o: "sorted (map f ?ys)"
    by simp_all
  have ne: "?ys \<noteq> []"
    using assms s by (metis empty_iff list.set(1))
  then obtain a rest where ys: "?ys = a # rest"
    by (cases ?ys) auto
  have "z = a \<or> z \<in> set rest"
    using assms s ys by (metis set_ConsD)
  then have "f a \<le> f z"
    using o ys by auto
  moreover have "a \<in> set zs"
    using s ys by (metis list.set_intros(1))
  ultimately show ?thesis
    using ne ys by simp
qed

lemma desc_key_first: "desc_key x \<le> desc_key PosInf \<Longrightarrow> x \<noteq> NaN \<Longrightarrow> x = PosInf"
  by (cases x) (auto simp: less_eq_prod_def)

lemma nlargest_infinite_first:
  assumes "(p, PosInf) \<in> set gs" and "0 < n"
  shows "nlargest n snd gs \<noteq> [] \<and> snd (hd (nlargest n snd gs)) = PosInf"
proof -
  let ?zs = "filter (\<lambda>x. snd x \<noteq> NaN) gs"
  let ?ys = "sort_key (\<lambda>x. desc_key (snd x)) ?zs"
  have "(p, PosInf) \<in> set ?zs"
    using assms by simp
  then have h: "?ys \<noteq> []" "hd ?ys \<in> set ?zs"
      "desc_key (snd (hd ?ys)) \<le> desc_key (snd (p, PosInf))"
    using hd_sort_key [of "(p, PosInf)" ?zs "\<lambda>x. desc_key (snd x)"] by blast+
  then have "snd (hd ?ys) = PosInf"
    using desc_key_first [of "snd (hd ?ys)"] by simp
  moreover have "nlargest n snd gs \<noteq> []" "hd (nlargest n snd gs) = hd ?ys"
    using h(1) assms(2) by (simp_all add: nlargest_def)
  ultimately show ?thesis
    by simp
qed

text \<open>
  Claim C4, amended. When the previous total of a row is a zero, nothing is raised and
  no policy excludes the row. The growth rate is NaN when the current total is a zero
  or NaN, and only then does line 154 drop the row. For every other current total the
  growth rate is an infinity, positive when the sign of the current total and the sign
  of the zero agree and negative when they differ, and the row stays. Then the product
  has exactly one mean growth rate, which is an infinity or NaN and never a number;
  a mean of plus infinity stands first in the ranking of line 156.
\<close>

theorem zero_previous_growth:
  "(r \<in> set (trend_rows lib df)
      \<and> (prev_total_value r = Finite 0 \<or> prev_total_value r = NegZero) \<longrightarrow>
      growth_rate r =
        (if total r = NaN \<or> total r = Finite 0 \<or> total r = NegZero then NaN
         else if (total r = PosInf \<or> 0 < number_of (total r)) = (prev_total_value r = Finite 0)
         then PosInf else NegInf)
      \<and> (r \<in> set (trend_df lib df) \<longleftrightarrow>
           total r \<noteq> NaN \<and> total r \<noteq> Finite 0 \<and> total r \<noteq> NegZero))
   \<and> (r \<in> set (trend_df lib df)
      \<and> (prev_total_value r = Finite 0 \<or> prev_total_value r = NegZero) \<longrightarrow>
      (\<exists>g. (product r, g) \<in> set (groupby_mean (trend_df lib df))
         \<and> (g = PosInf \<or> g = NegInf \<or> g = NaN)
         \<and> (\<forall>g'. (product r, g') \<in> set (groupby_mean (trend_df lib df)) \<longrightarrow> g' = g)))
   \<and> ((p, PosInf) \<in> set (groupby_mean (trend_df lib df)) \<longrightarrow>
      top_growth_products lib df \<noteq> []
      \<and> snd (hd (top_growth_products lib df)) = PosInf)"
proof (intro conjI impI)
  assume a: "r \<in> set (trend_rows lib df)
      \<and> (prev_total_value r = Finite 0 \<or> prev_total_value r = NegZero)"
  then show g: "growth_rate r =
        (if total r = NaN \<or> total r = Finite 0 \<or> total r = NegZero then NaN
         else if (total r = PosInf \<or> 0 < number_of (total r)) = (prev_total_value r = Finite 0)
         then PosInf else NegInf)"
    using trend_rows_growth [of r lib df]
      growth_rate_zero_previous [of "prev_total_value r" "total r"]
    by simp
  have "has_na r \<longleftrightarrow> total r = NaN \<or> total r = Finite 0 \<or> total r = NegZero"
    using a g by (auto simp: has_na_def)
  then show "r \<in> set (trend_df lib df) \<longleftrightarrow>
      total r \<noteq> NaN \<and> total r \<noteq> Finite 0 \<and> total r \<noteq> NegZero"
    using a by (auto simp: trend_df_def)
next
  assume a: "r \<in> set (trend_df lib df)
      \<and> (prev_total_value r = Finite 0 \<or> prev_total_value r = NegZero)"
  let ?g = "fmean (map growth_rate (filter (\<lambda>x. product x = product r) (trend_df lib df)))"
  have r: "r \<in> set (trend_rows lib df)" "\<not> has_na r"
    using a by (simp_all add: trend_df_def)
  have "growth_rate r \<noteq> NaN"
    using r(2) by (simp add: has_na_def)
  then have i: "growth_rate r = PosInf \<or> growth_rate r = NegInf"
    using a r(1) trend_rows_growth [of r lib df]
      growth_rate_zero_previous [of "prev_total_value r" "total r"]
    by (simp split: if_splits)
  have "growth_rate r
      \<in> set (map growth_rate (filter (\<lambda>x. product x = product r) (trend_df lib df)))"
    using a by simp
  then have "\<not> is_finite ?g"
    using i by (rule fmean_not_finite)
  then have n: "?g = PosInf \<or> ?g = NegInf \<or> ?g = NaN"
    by (cases ?g) simp_all
  have e: "(product r, ?g) \<in> set (groupby_mean (trend_df lib df))"
    using a unfolding groupby_mean_entry by blast
  have u: "\<forall>g'. (product r, g') \<in> set (groupby_mean (trend_df lib df)) \<longrightarrow> g' = ?g"
    unfolding groupby_mean_entry by blast
  show "\<exists>g. (product r, g) \<in> set (groupby_mean (trend_df lib df))
         \<and> (g = PosInf \<or> g = NegInf \<or> g = NaN)
         \<and> (\<forall>g'. (product r, g') \<in> set (groupby_mean (trend_df lib df)) \<longrightarrow> g' = g)"
    using e n u by blast
next
  assume a: "(p, PosInf) \<in> set (groupby_mean (trend_df lib df))"
  then show "top_growth_products lib df \<noteq> []"
    and "snd (hd (top_growth_products lib df)) = PosInf"
    using nlargest_infinite_first [of p "groupby_mean (trend_df lib df)" 5]
    by (simp_all add: top_growth_products_def)
qed

text \<open>
  Claim C4, as stated, fails. The product Valve has the total 0 in January and 100 in
  February: the row of February, whose previous total is 0, is kept by line 154 with
  the growth rate plus infinity, it is the one row over which the mean of the product
  is taken, and the ranking of line 156 lists the product with that infinite mean. The
  product Pump has the total 0 in both months: its row of February has the growth
  rate NaN and is dropped.
\<close>

theorem zero_previous_counterexample:
  "trend_rows exact_library (assign_total_value zero_prev_relation)
     = [\<lparr>bucket = month_bucket (ts 2024 1 5), product = ''Pump'', total = Finite 0,
         prev_total_value = NaN, growth_rate = NaN\<rparr>,
        \<lparr>bucket = month_bucket (ts 2024 1 5), product = ''Valve'', total = Finite 0,
         prev_total_value = NaN, growth_rate = NaN\<rparr>,
        \<lparr>bucket = month_bucket (ts 2024 2 1), product = ''Pump'', total = Finite 0,
         prev_total_value = Finite 0, growth_rate = NaN\<rparr>,
        \<lparr>bucket = month_bucket (ts 2024 2 1), product = ''Valve'', total = Finite 100,
         prev_total_value = Finite 0, growth_rate = PosInf\<rparr>]
   \<and> trend_df exact_library (assign_total_value zero_prev_relation)
     = [\<lparr>bucket = month_bucket (ts 2024 2 1), product = ''Valve'', total = Finite 100,
         prev_total_value = Finite 0, growth_rate = PosInf\<rparr>]
   \<and> groupby_mean (trend_df exact_library (assign_total_value zero_prev_relation))
     = [(''Valve'', PosInf)]
   \<and> top_growth_products exact_library (assign_total_value zero_prev_relation)
     = [(''Valve'', PosInf)]"
  by code_simp

theorem zero_previous_growth_witness:
  "\<lparr>bucket = month_bucket (ts 2024 2 1), product = ''Valve'', total = Finite 100,
       prev_total_value = Finite 0, growth_rate = PosInf\<rparr>
     \<in> set (trend_rows exact_library (assign_total_value zero_prev_relation))
   \<and> \<lparr>bucket = month_bucket (ts 2024 2 1), product = ''Valve'', total = Finite 100,
       prev_total_value = Finite 0, growth_rate = PosInf\<rparr>
     \<in> set (trend_df exact_library (assign_total_value zero_prev_relation))
   \<and> (''Valve'', PosInf)
     \<in> set (groupby_mean (trend_df exact_library (assign_total_value zero_prev_relation)))
   \<and> top_growth_products exact_library (assign_total_value zero_prev_relation) \<noteq> []
   \<and> snd (hd (top_growth_products exact_library (assign_total_value zero_prev_relation)))
     = PosInf
   \<and> \<lparr>bucket = month_bucket (ts 2024 2 1), product = ''Valve'', total = Finite 100,
       prev_total_value = NegZero, growth_rate = NegInf\<rparr>
     \<in> set (trend_df negative_zero_library (assign_total_value zero_prev_relation))
   \<and> (''Valve'', NegInf)
     \<in> set (groupby_mean (trend_df negative_zero_library (assign_total_value zero_prev_relation)))"
proof -
  let ?d = "assign_total_value zero_prev_relation"
  let ?r = "\<lparr>bucket = month_bucket (ts 2024 2 1), product = ''Valve'', total = Finite 100,
       prev_total_value = Finite 0, growth_rate = PosInf\<rparr>"
  let ?n = "\<lparr>bucket = month_bucket (ts 2024 2 1), product = ''Valve'', total = Finite 100,
       prev_total_value = NegZero, growth_rate = NegInf\<rparr>"
  have a: "trend_df exact_library ?d = [?r]"
    by code_simp
  have b: "groupby_mean [?r] = [(''Valve'', PosInf)]"
    by code_simp
  have c: "?r \<in> set (trend_rows exact_library ?d)"
    by code_simp
  have d: "trend_df negative_zero_library ?d = [?n]"
    by code_simp
  have e: "groupby_mean [?n] = [(''Valve'', NegInf)]"
    by code_simp
  have f: "?n \<in> set (trend_rows negative_zero_library ?d)"
    by code_simp
  show ?thesis
    using zero_previous_growth [of ?r exact_library ?d "''Valve''"]
      zero_previous_growth [of ?n negative_zero_library ?d "''Valve''"] a b c d e f
    by simp
qed

end
